theory Spec2Isabelle
  imports Main "HOL-Library.AList"
begin

section \<open>Exceptions\<close>

text \<open>
  Every \<^verbatim>\<open>raise\<close> of the modelled code is a value of this type; a function that can
  raise returns \<open>error + 'a\<close> with \<open>Inl\<close> for the exception.
  \<open>WrappingOverflow\<close> is \<^verbatim>\<open>Exception(_WRAPPING_OVERFLOW)\<close> of \<^verbatim>\<open>utils/ordering.py\<close>.
\<close>

datatype error =
    KeySetPairsMismatchQueryError
  | ValueError
  | TypeError
  | KeyError
  | AttributeError
  | IndexError
  | WrappingOverflow

text \<open>Sequencing of a computation that can raise.\<close>

definition bind_err :: "error + 'a \<Rightarrow> ('a \<Rightarrow> error + 'b) \<Rightarrow> error + 'b" where
  "bind_err m f = (case m of Inl e \<Rightarrow> Inl e | Inr x \<Rightarrow> f x)"

text \<open>A list comprehension whose body can raise: the first exception ends it.\<close>

fun map_err :: "('a \<Rightarrow> error + 'b) \<Rightarrow> 'a list \<Rightarrow> error + 'b list" where
  "map_err f [] = Inr []"
| "map_err f (x # xs) =
     (case f x of
        Inl e \<Rightarrow> Inl e
      | Inr y \<Rightarrow> (case map_err f xs of Inl e \<Rightarrow> Inl e | Inr ys \<Rightarrow> Inr (y # ys)))"

section \<open>Ordering expressions (\<^verbatim>\<open>paginators/keyset/utils/ordering.py\<close>)\<close>

text \<open>
  The SQLAlchemy expression nodes that the ordering utilities walk through.
  A \<open>ColumnClause\<close> (optional table, name) has neither a \<^verbatim>\<open>modifier\<close> nor an
  \<^verbatim>\<open>element\<close> attribute; a \<open>UnaryExpression\<close> has both (the modifier is \<open>None\<close> for
  a plain operator); \<open>Label\<close> and \<open>label_reference\<close> have an \<^verbatim>\<open>element\<close> and no
  \<^verbatim>\<open>modifier\<close>.
\<close>

datatype modifier = asc_op | desc_op | nullsfirst_op | nullslast_op

datatype column_element =
    ColumnClause "string option" string
  | UnaryExpression "modifier option" column_element
  | Label string column_element
  | label_reference column_element

definition ORDER_MODIFIERS :: "modifier list" where
  "ORDER_MODIFIERS = [asc_op, desc_op, nullsfirst_op, nullslast_op]"

definition UNSUPPORTED_ORDER_MODIFIERS :: "modifier list" where
  "UNSUPPORTED_ORDER_MODIFIERS = [nullsfirst_op, nullslast_op]"

definition WRAPPING_DEPTH :: nat where
  "WRAPPING_DEPTH = 1000"

text \<open>\<^verbatim>\<open>getattr(x, "modifier", None)\<close>\<close>

fun modifier_of :: "column_element \<Rightarrow> modifier option" where
  "modifier_of (UnaryExpression m e) = m"
| "modifier_of (ColumnClause t n) = None"
| "modifier_of (Label l e) = None"
| "modifier_of (label_reference e) = None"

text \<open>\<^verbatim>\<open>x.element\<close> where \<^verbatim>\<open>hasattr(x, "element")\<close>, otherwise \<open>None\<close>.\<close>

fun element_of :: "column_element \<Rightarrow> column_element option" where
  "element_of (UnaryExpression m e) = Some e"
| "element_of (ColumnClause t n) = None"
| "element_of (Label l e) = Some e"
| "element_of (label_reference e) = Some e"

text \<open>The copy of \<open>x\<close> whose \<^verbatim>\<open>element\<close> is \<open>e\<close> (a column has none to replace).\<close>

fun with_element :: "column_element \<Rightarrow> column_element \<Rightarrow> column_element" where
  "with_element (UnaryExpression m _) e = UnaryExpression m e"
| "with_element (Label l _) e = Label l e"
| "with_element (label_reference _) e = label_reference e"
| "with_element (ColumnClause t n) e = ColumnClause t n"

text \<open>The copy of \<open>x\<close> after \<^verbatim>\<open>x.modifier = m\<close>; only reached on a unary expression.\<close>

fun with_modifier :: "column_element \<Rightarrow> modifier \<Rightarrow> column_element" where
  "with_modifier (UnaryExpression _ e) m = UnaryExpression (Some m) e"
| "with_modifier x m = x"

text \<open>\<^verbatim>\<open>sqlalchemy.asc(x)\<close> and \<^verbatim>\<open>sqlalchemy.column(name)\<close>.\<close>

definition asc :: "column_element \<Rightarrow> column_element" where
  "asc x = UnaryExpression (Some asc_op) x"

definition desc :: "column_element \<Rightarrow> column_element" where
  "desc x = UnaryExpression (Some desc_op) x"

definition column :: "string \<Rightarrow> column_element" where
  "column n = ColumnClause None n"

text \<open>
  \<^verbatim>\<open>strip_labels\<close>: the \<^verbatim>\<open>while isinstance(el, _LABELLED)\<close> loop, which ends at the
  first node that is neither a \<open>Label\<close> nor a \<open>label_reference\<close>.
\<close>

fun strip_labels :: "column_element \<Rightarrow> column_element" where
  "strip_labels (Label l e) = strip_labels e"
| "strip_labels (label_reference e) = strip_labels e"
| "strip_labels (UnaryExpression m e) = UnaryExpression m e"
| "strip_labels (ColumnClause t n) = ColumnClause t n"

text \<open>
  \<^verbatim>\<open>_get_order_direction\<close>: plain recursion on \<^verbatim>\<open>element\<close>, with no iteration
  counter. It returns the first \<open>asc_op\<close> or \<open>desc_op\<close> modifier on the way down, or
  \<open>None\<close> at a node without \<^verbatim>\<open>element\<close>.
\<close>

fun get_order_direction :: "column_element \<Rightarrow> modifier option" where
  "get_order_direction (UnaryExpression m e) =
     (if m = Some asc_op \<or> m = Some desc_op then m else get_order_direction e)"
| "get_order_direction (Label l e) = get_order_direction e"
| "get_order_direction (label_reference e) = get_order_direction e"
| "get_order_direction (ColumnClause t n) = None"

text \<open>
  \<^verbatim>\<open>_reverse_order_direction\<close>: the body of \<^verbatim>\<open>for _ in range(_WRAPPING_DEPTH)\<close>, with
  the number of iterations left as first argument. The source clones the chain
  level by level and returns the top clone \<^verbatim>\<open>copied\<close>; here the result for a wrapper
  is the wrapper around the result for its element. Leaving the loop without a
  \<^verbatim>\<open>return\<close> raises the overflow exception.
\<close>

fun reverse_order_direction_loop :: "nat \<Rightarrow> column_element \<Rightarrow> error + column_element" where
  "reverse_order_direction_loop 0 x = Inl WrappingOverflow"
| "reverse_order_direction_loop (Suc n) x =
     (if modifier_of x = Some asc_op \<or> modifier_of x = Some desc_op then
        (if modifier_of x = Some asc_op then Inr (with_modifier x desc_op)
         else Inr (with_modifier x asc_op))
      else
        (case element_of x of
           None \<Rightarrow> Inr x
         | Some e \<Rightarrow>
             (case reverse_order_direction_loop n e of
                Inl err \<Rightarrow> Inl err
              | Inr e' \<Rightarrow> Inr (with_element x e'))))"

definition reverse_order_direction :: "column_element \<Rightarrow> error + column_element" where
  "reverse_order_direction column_element =
     reverse_order_direction_loop WRAPPING_DEPTH column_element"

text \<open>
  \<^verbatim>\<open>_remove_order_direction\<close>: an order modifier met at the top is replaced by its
  child (\<^verbatim>\<open>copied = x = x.element\<close>), one met below a parent is unlinked
  (\<^verbatim>\<open>parent.element = x = x.element\<close>); both use up an iteration. The warning
  about NULLS FIRST / NULLS LAST is a diagnostic and changes no result.
\<close>

fun remove_order_direction_loop :: "nat \<Rightarrow> column_element \<Rightarrow> error + column_element" where
  "remove_order_direction_loop 0 x = Inl WrappingOverflow"
| "remove_order_direction_loop (Suc n) x =
     (if modifier_of x \<in> Some ` set ORDER_MODIFIERS then
        (case element_of x of
           None \<Rightarrow> Inl AttributeError
         | Some e \<Rightarrow> remove_order_direction_loop n e)
      else
        (case element_of x of
           None \<Rightarrow> Inr x
         | Some e \<Rightarrow>
             (case remove_order_direction_loop n e of
                Inl err \<Rightarrow> Inl err
              | Inr e' \<Rightarrow> Inr (with_element x e'))))"

definition remove_order_direction :: "column_element \<Rightarrow> error + column_element" where
  "remove_order_direction column_element =
     remove_order_direction_loop WRAPPING_DEPTH column_element"

subsection \<open>\<^verbatim>\<open>OrderByColumnWrapper\<close>\<close>

text \<open>
  \<^verbatim>\<open>full_name.split(".", 1)\<close>: the text before and after the first dot, or \<open>None\<close>
  when there is no dot (the unpacking then raises \<^verbatim>\<open>ValueError\<close>, which the source
  catches).
\<close>

fun split_dot :: "string \<Rightarrow> (string \<times> string) option" where
  "split_dot [] = None"
| "split_dot (c # cs) =
     (if c = CHR ''.'' then Some ([], cs)
      else (case split_dot cs of None \<Rightarrow> None | Some (a, b) \<Rightarrow> Some (c # a, b)))"

record order_by_column_wrapper =
  column_name_or_obj :: column_element
  full_name :: string
  table_name :: "string option"
  name :: string

text \<open>
  \<^verbatim>\<open>OrderByColumnWrapper.__init__\<close>. The argument is a column name (\<open>Inl\<close>) or an
  expression (\<open>Inr\<close>). \<open>str_of\<close> is SQLAlchemy's \<^verbatim>\<open>str()\<close> of an expression, a
  parameter of the model. \<^verbatim>\<open>warn_if_column_nullable\<close> only warns, but its argument
  \<^verbatim>\<open>self.comparable_value\<close> runs \<^verbatim>\<open>_remove_order_direction\<close>, which can raise.
\<close>

definition OrderByColumnWrapper ::
  "(column_element \<Rightarrow> string) \<Rightarrow> string + column_element \<Rightarrow> error + order_by_column_wrapper"
where
  "OrderByColumnWrapper str_of arg =
     (let c0 = (case arg of Inl s \<Rightarrow> column s | Inr e \<Rightarrow> e);
          c = (if get_order_direction c0 = None then asc c0 else c0)
      in bind_err (remove_order_direction c) (\<lambda>el.
           let fn = str_of el
           in Inr (case split_dot fn of
                     None \<Rightarrow>
                       \<lparr>column_name_or_obj = c, full_name = fn, table_name = None, name = fn\<rparr>
                   | Some (t, n) \<Rightarrow>
                       \<lparr>column_name_or_obj = c, full_name = fn, table_name = Some t, name = n\<rparr>)))"

text \<open>The properties \<^verbatim>\<open>element\<close>, \<^verbatim>\<open>comparable_value\<close>, \<^verbatim>\<open>is_ascending\<close>, \<^verbatim>\<open>reversed\<close>.\<close>

definition element :: "order_by_column_wrapper \<Rightarrow> error + column_element" where
  "element w = remove_order_direction (column_name_or_obj w)"

definition comparable_value :: "order_by_column_wrapper \<Rightarrow> error + column_element" where
  "comparable_value w = bind_err (element w) (\<lambda>el. Inr (strip_labels el))"

definition is_ascending :: "order_by_column_wrapper \<Rightarrow> error + bool" where
  "is_ascending w =
     (case get_order_direction (column_name_or_obj w) of
        None \<Rightarrow> Inl ValueError
      | Some d \<Rightarrow> Inr (d = asc_op))"

definition reversed ::
  "(column_element \<Rightarrow> string) \<Rightarrow> order_by_column_wrapper \<Rightarrow> error + order_by_column_wrapper"
where
  "reversed str_of w =
     bind_err (reverse_order_direction (column_name_or_obj w))
       (\<lambda>new_uo. OrderByColumnWrapper str_of (Inr new_uo))"


text \<open>
  A side of a comparison: a SQL expression, or a value bound into the
  statement (a bookmark value).
\<close>

datatype 'v operand = Expression column_element | BindParameter 'v

record dialect =
  dialect_name :: string

text \<open>
  \<^verbatim>\<open>pair_for_comparison\<close>. The \<^verbatim>\<open>bind_processor\<close> step applies a custom column
  type's preprocessing and is skipped on \<^verbatim>\<open>TypeError\<close> or \<^verbatim>\<open>AttributeError\<close>, which
  is what the built-in types without a processor give: the value stays as it is.
\<close>

definition pair_for_comparison ::
  "order_by_column_wrapper \<Rightarrow> 'v \<Rightarrow> dialect option \<Rightarrow> error + ('v operand \<times> 'v operand)"
where
  "pair_for_comparison w val d =
     bind_err (comparable_value w) (\<lambda>compval.
       bind_err (is_ascending w) (\<lambda>ascending.
         if ascending then Inr (Expression compval, BindParameter val)
         else Inr (BindParameter val, Expression compval)))"

subsection \<open>\<^verbatim>\<open>MappedOrderColumn\<close>\<close>

datatype mapped_order_column =
    DirectColumn order_by_column_wrapper nat
  | AttributeColumn order_by_column_wrapper nat string
  | AppendedColumn order_by_column_wrapper string

text \<open>
  \<^verbatim>\<open>order_by_clause\<close>: the wrapper's own expression, except for an appended column,
  whose clause is the labelled extra column, descending when the wrapper is.
\<close>

fun order_by_clause :: "mapped_order_column \<Rightarrow> error + column_element" where
  "order_by_clause (DirectColumn w i) = Inr (column_name_or_obj w)"
| "order_by_clause (AttributeColumn w i a) = Inr (column_name_or_obj w)"
| "order_by_clause (AppendedColumn w n) =
     bind_err (comparable_value w) (\<lambda>compval.
       bind_err (is_ascending w) (\<lambda>ascending.
         if ascending then Inr (Label n compval) else Inr (desc (Label n compval))))"

section \<open>SQL conditions and statements\<close>

text \<open>
  The conditions \<^verbatim>\<open>_compare_sql_row_values\<close> builds: \<^verbatim>\<open>a < b\<close>, \<^verbatim>\<open>a == b\<close>,
  \<^verbatim>\<open>tuple_(*a) < tuple_(*b)\<close>, \<^verbatim>\<open>and_(...)\<close>, \<^verbatim>\<open>or_(...)\<close>.
\<close>

datatype 'a clause =
    Lt 'a 'a
  | Eq 'a 'a
  | TupleLt "'a list" "'a list"
  | And "'a clause list"
  | Or "'a clause list"

text \<open>
  Lexicographic tuple comparison, as the specification's glossary words it: the first
  column decides unless equal, then the next, and so on. This is the meaning of a
  native row-value \<open><\<close>.
\<close>

fun row_value_lt :: "'v::linorder list \<Rightarrow> 'v list \<Rightarrow> bool" where
  "row_value_lt (x # xs) (y # ys) = (x < y \<or> (x = y \<and> row_value_lt xs ys))"
| "row_value_lt [] ys = False"
| "row_value_lt (x # xs) [] = False"

text \<open>
  The native row-value \<open><\<close> on columns that may be NULL (\<open>None\<close>): the first
  column that differs decides, and the later columns are not looked at; a comparison
  that has to look at a NULL is not true.
\<close>

fun sql_row_lt :: "'v::linorder option list \<Rightarrow> 'v option list \<Rightarrow> bool" where
  "sql_row_lt (Some x # xs) (Some y # ys) = (x < y \<or> (x = y \<and> sql_row_lt xs ys))"
| "sql_row_lt xs ys = False"

text \<open>
  Whether a condition is true of a row. \<open>val\<close> gives the value of an operand in
  the row, \<open>None\<close> for SQL NULL; a comparison with NULL is not true.
\<close>

fun eval_clause :: "('a \<Rightarrow> 'v::linorder option) \<Rightarrow> 'a clause \<Rightarrow> bool" where
  "eval_clause val (Lt a b) =
     (case val a of None \<Rightarrow> False
      | Some x \<Rightarrow> (case val b of None \<Rightarrow> False | Some y \<Rightarrow> x < y))"
| "eval_clause val (Eq a b) =
     (case val a of None \<Rightarrow> False
      | Some x \<Rightarrow> (case val b of None \<Rightarrow> False | Some y \<Rightarrow> x = y))"
| "eval_clause val (TupleLt as bs) = sql_row_lt (map val as) (map val bs)"
| "eval_clause val (And cs) = (\<forall>c \<in> set cs. eval_clause val c)"
| "eval_clause val (Or cs) = (\<exists>c \<in> set cs. eval_clause val c)"

text \<open>
  A \<^verbatim>\<open>Select\<close>, as far as the paginator reads and rebuilds it, with SQLAlchemy's
  generative methods: \<^verbatim>\<open>where\<close> and \<^verbatim>\<open>having\<close> add a condition, \<^verbatim>\<open>order_by(None)\<close>
  cancels the ordering and \<^verbatim>\<open>order_by(*clauses)\<close> appends to it, \<^verbatim>\<open>limit\<close> sets the
  row limit.
\<close>

record 'v select =
  sel_where_criteria :: "'v operand clause list"
  sel_having_criteria :: "'v operand clause list"
  sel_order_by_clauses :: "column_element list"
  sel_group_by_clauses :: "column_element list option"
  sel_limit_clause :: "int option"

definition select_where :: "'v select \<Rightarrow> 'v operand clause \<Rightarrow> 'v select" where
  "select_where q c = q\<lparr>sel_where_criteria := sel_where_criteria q @ [c]\<rparr>"

definition select_having :: "'v select \<Rightarrow> 'v operand clause \<Rightarrow> 'v select" where
  "select_having q c = q\<lparr>sel_having_criteria := sel_having_criteria q @ [c]\<rparr>"

definition select_order_by :: "'v select \<Rightarrow> column_element list option \<Rightarrow> 'v select" where
  "select_order_by q clauses =
     (case clauses of
        None \<Rightarrow> q\<lparr>sel_order_by_clauses := []\<rparr>
      | Some cs \<Rightarrow> q\<lparr>sel_order_by_clauses := sel_order_by_clauses q @ cs\<rparr>)"

definition select_limit :: "'v select \<Rightarrow> int \<Rightarrow> 'v select" where
  "select_limit q n = q\<lparr>sel_limit_clause := Some n\<rparr>"

section \<open>Bookmarks\<close>

text \<open>
  A bookmark is a \<^verbatim>\<open>Dict[str, Any]\<close> read at the keys \<^verbatim>\<open>"keyset_pairs"\<close>,
  \<^verbatim>\<open>"direction"\<close> and \<^verbatim>\<open>"offset"\<close>; an absent key is \<open>None\<close>. The keyset pairs are a
  dictionary in insertion order: a list of pairs.
\<close>

record 'v bookmark =
  keyset_pairs :: "(string \<times> 'v) list option"
  direction :: "string option"
  offset :: "int option"

definition empty_bookmark :: "'v bookmark" where
  "empty_bookmark = \<lparr>keyset_pairs = None, direction = None, offset = None\<rparr>"

text \<open>\<^verbatim>\<open>bookmark.get("direction", "forward") == "backward"\<close>\<close>

definition is_backward :: "'v bookmark \<Rightarrow> bool" where
  "is_backward b = (case direction b of None \<Rightarrow> False | Some d \<Rightarrow> d = ''backward'')"

section \<open>The keyset paginator (\<^verbatim>\<open>paginators/keyset/paginator.py\<close>)\<close>

definition SUPPORTS_NATIVE_ROW_VALUES_COMPARISON :: "string list" where
  "SUPPORTS_NATIVE_ROW_VALUES_COMPARISON = [''postgresql'', ''mysql'', ''sqlite'']"

text \<open>\<^verbatim>\<open>str.lower()\<close> on the ASCII letters.\<close>

definition lower_char :: "char \<Rightarrow> char" where
  "lower_char c =
     (let n = (of_char c :: nat) in if 65 \<le> n \<and> n \<le> 90 then char_of (n + 32) else c)"

definition lower :: "string \<Rightarrow> string" where
  "lower s = map lower_char s"

definition supports_native_row_values :: "dialect option \<Rightarrow> bool" where
  "supports_native_row_values d =
     (case d of
        None \<Rightarrow> False
      | Some dl \<Rightarrow> lower (dialect_name dl) \<in> set SUPPORTS_NATIVE_ROW_VALUES_COMPARISON)"

text \<open>\<^verbatim>\<open>KeySetPaginator._compare_sql_row_values\<close>\<close>

definition compare_sql_row_values ::
  "dialect option \<Rightarrow> 'a list \<Rightarrow> 'a list \<Rightarrow> error + 'a clause"
where
  "compare_sql_row_values d lesser_row greater_row =
     (if length lesser_row \<noteq> length greater_row then Inl ValueError
      else if length lesser_row = 1 then Inr (Lt (lesser_row ! 0) (greater_row ! 0))
      else if supports_native_row_values d then Inr (TupleLt lesser_row greater_row)
      else Inr (Or (map (\<lambda>eq_depth.
                     And (map (\<lambda>index. Eq (lesser_row ! index) (greater_row ! index)) [0..<eq_depth]
                          @ [Lt (lesser_row ! eq_depth) (greater_row ! eq_depth)]))
                   [0..<length lesser_row])))"

record 'v key_set_paginator =
  page_size :: int
  select_or_query :: "'v select"
  bookmark :: "'v bookmark"
  order_by_columns :: "order_by_column_wrapper list"
  order_by_clauses :: "column_element list"
  dialect :: "dialect option"

text \<open>
  \<^verbatim>\<open>_apply_filter_condition_if_required\<close>. An empty bookmark leaves the statement as
  it is; \<^verbatim>\<open>bookmark["keyset_pairs"]\<close> raises \<^verbatim>\<open>KeyError\<close> when the key is absent;
  unpacking \<^verbatim>\<open>zip(*swapped)\<close> of no pairs into two names raises \<^verbatim>\<open>ValueError\<close>.
  The first components go to \<^verbatim>\<open>greater_row\<close>, the second to \<^verbatim>\<open>lesser_row\<close>.
\<close>

definition apply_filter_condition_if_required :: "'v key_set_paginator \<Rightarrow> error + 'v select" where
  "apply_filter_condition_if_required p =
     (if bookmark p = empty_bookmark then Inr (select_or_query p)
      else
        (case keyset_pairs (bookmark p) of
           None \<Rightarrow> Inl KeyError
         | Some pairs \<Rightarrow>
             (if map name (order_by_columns p) \<noteq> map fst pairs then
                Inl KeySetPairsMismatchQueryError
              else
                bind_err
                  (map_err (\<lambda>(c, v). pair_for_comparison c v (dialect p))
                     (zip (order_by_columns p) (map snd pairs)))
                  (\<lambda>swapped.
                     if swapped = [] then Inl ValueError
                     else
                       bind_err
                         (compare_sql_row_values (dialect p) (map snd swapped) (map fst swapped))
                         (\<lambda>filter_condition.
                            (case sel_group_by_clauses (select_or_query p) of
                               None \<Rightarrow> Inr (select_where (select_or_query p) filter_condition)
                             | Some g \<Rightarrow>
                                 if length g > 0 then
                                   Inr (select_having (select_or_query p) filter_condition)
                                 else Inr (select_where (select_or_query p) filter_condition)))))))"

text \<open>\<^verbatim>\<open>get_modified_sql_statement\<close>\<close>

definition get_modified_sql_statement :: "'v key_set_paginator \<Rightarrow> error + 'v select" where
  "get_modified_sql_statement p =
     bind_err (apply_filter_condition_if_required p) (\<lambda>filtered.
       let select_or_query =
             select_order_by (select_order_by filtered None) (Some (order_by_clauses p));
           total_rows_num_plus_one_extra_to_check_next = page_size p + 1
       in Inr (select_limit select_or_query total_rows_num_plus_one_extra_to_check_next))"

text \<open>
  \<^verbatim>\<open>KeySetPaginator.__init__\<close>. \<^verbatim>\<open>parse_order_by_clause\<close> wraps each ORDER BY clause
  of the statement (kept here as a flat list). \<open>find_order_key\<close> stands for
  \<^verbatim>\<open>find_order_key(c, column_descriptors)\<close> on this statement's column descriptions,
  which is SQLAlchemy introspection and a parameter of the model.
\<close>

definition parse_order_by_clause ::
  "(column_element \<Rightarrow> string) \<Rightarrow> 'v select \<Rightarrow> error + order_by_column_wrapper list"
where
  "parse_order_by_clause str_of selectable =
     map_err (\<lambda>clause. OrderByColumnWrapper str_of (Inr clause)) (sel_order_by_clauses selectable)"

definition scaffold_order_by_clauses ::
  "(order_by_column_wrapper \<Rightarrow> mapped_order_column) \<Rightarrow> order_by_column_wrapper list
     \<Rightarrow> error + column_element list"
where
  "scaffold_order_by_clauses find_order_key cols =
     map_err (\<lambda>c. order_by_clause (find_order_key c)) cols"

definition KeySetPaginator ::
  "(column_element \<Rightarrow> string) \<Rightarrow> (order_by_column_wrapper \<Rightarrow> mapped_order_column)
     \<Rightarrow> 'v select \<Rightarrow> int \<Rightarrow> dialect option \<Rightarrow> 'v bookmark option
     \<Rightarrow> error + 'v key_set_paginator"
where
  "KeySetPaginator str_of find_order_key query_or_select psize d bm =
     (let b = (case bm of None \<Rightarrow> empty_bookmark | Some b' \<Rightarrow> b')
      in bind_err (parse_order_by_clause str_of query_or_select) (\<lambda>parsed.
           bind_err (if is_backward b then map_err (reversed str_of) parsed else Inr parsed)
             (\<lambda>cols.
                bind_err (scaffold_order_by_clauses find_order_key cols) (\<lambda>clauses.
                  Inr \<lparr>page_size = psize, select_or_query = query_or_select, bookmark = b,
                       order_by_columns = cols, order_by_clauses = clauses, dialect = d\<rparr>))))"


section \<open>Result rows (\<^verbatim>\<open>utils.py\<close>)\<close>

text \<open>
  An item of a result row is a scalar or an ORM instance with its attributes. A
  \<^verbatim>\<open>Row\<close> is its keys with their items. After unpacking, an entry of the row list is
  a whole \<^verbatim>\<open>Row\<close> or a single item.
\<close>

datatype 'v item = Scalar 'v | Instance "(string \<times> 'v) list"

type_synonym 'v row = "(string \<times> 'v item) list"

datatype 'v entry = RowEntry "'v row" | ItemEntry "'v item"

text \<open>
  \<^verbatim>\<open>get_value_from_row_by_column_name\<close>. For a \<^verbatim>\<open>Row\<close> the source calls
  \<^verbatim>\<open>row._mapping()\<close>; \<^verbatim>\<open>_mapping\<close> is a property of a \<^verbatim>\<open>Row\<close>, so calling its value
  raises \<^verbatim>\<open>TypeError\<close> before the column is looked up. Anything else is read with
  \<^verbatim>\<open>getattr\<close>.
\<close>

fun get_value_from_row_by_column_name :: "'v entry \<Rightarrow> string \<Rightarrow> error + 'v item" where
  "get_value_from_row_by_column_name (RowEntry r) column_name = Inl TypeError"
| "get_value_from_row_by_column_name (ItemEntry (Instance attrs)) column_name =
     (case map_of attrs column_name of None \<Rightarrow> Inl AttributeError | Some v \<Rightarrow> Inr (Scalar v))"
| "get_value_from_row_by_column_name (ItemEntry (Scalar v)) column_name = Inl AttributeError"

text \<open>\<^verbatim>\<open>unpack_rows_if_row_contains_only_orm_model\<close>\<close>

definition unpack_rows_if_row_contains_only_orm_model :: "'v row list \<Rightarrow> 'v entry list" where
  "unpack_rows_if_row_contains_only_orm_model rs =
     map (\<lambda>r. if length r \<noteq> 1 then RowEntry r else ItemEntry (snd (r ! 0))) rs"

section \<open>Pages (\<^verbatim>\<open>page.py\<close>, \<^verbatim>\<open>paginators/keyset/page.py\<close>)\<close>

text \<open>Python's \<^verbatim>\<open>xs[:n]\<close>: a negative \<open>n\<close> counts from the end.\<close>

definition slice_to :: "'a list \<Rightarrow> int \<Rightarrow> 'a list" where
  "slice_to xs n =
     (if n < 0 then take (nat (int (length xs) + n)) xs else take (nat n) xs)"

text \<open>Python's \<^verbatim>\<open>xs[i]\<close>: a negative index counts from the end, out of range raises.\<close>

definition getitem :: "'a list \<Rightarrow> int \<Rightarrow> error + 'a" where
  "getitem xs i =
     (let n = int (length xs); j = (if i < 0 then n + i else i)
      in if 0 \<le> j \<and> j < n then Inr (xs ! nat j) else Inl IndexError)"

text \<open>
  A dictionary built by a comprehension: a key met again keeps its place and takes
  the new value.
\<close>

definition dict_of :: "('k \<times> 'a) list \<Rightarrow> ('k \<times> 'a) list" where
  "dict_of kvs = foldl (\<lambda>d (k, v). AList.update k v d) [] kvs"

text \<open>Python's \<^verbatim>\<open>a or b\<close> on dictionaries that may be \<^verbatim>\<open>None\<close>: an empty one is false.\<close>

definition dict_or :: "('k \<times> 'a) list option \<Rightarrow> ('k \<times> 'a) list option \<Rightarrow> ('k \<times> 'a) list option" where
  "dict_or a b = (case a of None \<Rightarrow> b | Some [] \<Rightarrow> b | Some (kv # kvs) \<Rightarrow> a)"

record 'v parsing_metadata =
  meta_page_size :: int
  meta_order_by_columns :: "order_by_column_wrapper list"
  meta_bookmark :: "'v item bookmark"

text \<open>\<^verbatim>\<open>ParsingMetadata.__post_init__\<close>\<close>

definition expected_entries_count :: "'v parsing_metadata \<Rightarrow> int" where
  "expected_entries_count m = meta_page_size m + 1"

record 'v key_set_page =
  rows :: "'v entry list"
  metadata :: "'v parsing_metadata"
  keyset_pairs_table :: "(int \<times> (string \<times> 'v item) list) list"
  previous_bookmark :: "'v item bookmark"
  first_keyset_pair :: "(string \<times> 'v item) list option"
  last_keyset_pair :: "(string \<times> 'v item) list option"
  additional_keyset_pair :: "(string \<times> 'v item) list option"
  next_keyset_pair :: "(string \<times> 'v item) list option"
  previous_keyset_pair :: "(string \<times> 'v item) list option"

text \<open>The keyset pairs of one row: the dictionary comprehension over the ordering columns.\<close>

definition row_keyset_pairs ::
  "order_by_column_wrapper list \<Rightarrow> 'v entry \<Rightarrow> error + (string \<times> 'v item) list"
where
  "row_keyset_pairs cols r =
     bind_err
       (map_err (\<lambda>c. bind_err (get_value_from_row_by_column_name r (name c))
                        (\<lambda>v. Inr (name c, v))) cols)
       (\<lambda>kvs. Inr (dict_of kvs))"

text \<open>
  \<^verbatim>\<open>KeySetPage.__init__\<close>. The rows are cut to the page size first; the table of
  keyset pairs has an entry for every fetched row, keyed by its index in the fetched
  list. For a backward bookmark the table's items and the cut rows are reversed; the
  table is then read by key with \<^verbatim>\<open>get\<close>.
\<close>

definition KeySetPage :: "'v entry list \<Rightarrow> 'v parsing_metadata \<Rightarrow> error + 'v key_set_page" where
  "KeySetPage fetched m =
     (let cut = slice_to fetched (meta_page_size m)
      in bind_err
           (map_err (\<lambda>(idx, r). bind_err (row_keyset_pairs (meta_order_by_columns m) r)
                                   (\<lambda>d. Inr (int idx, d)))
              (enumerate 0 fetched))
           (\<lambda>table0.
              let prev = meta_bookmark m;
                  table = (if is_backward prev then rev table0 else table0);
                  shown = (if is_backward prev then rev cut else cut);
                  first = map_of table 0;
                  last = map_of table (int (length shown) - 1);
                  additional = map_of table (int (length shown))
              in Inr \<lparr>rows = shown, metadata = m, keyset_pairs_table = table,
                      previous_bookmark = prev,
                      first_keyset_pair = first, last_keyset_pair = last,
                      additional_keyset_pair = additional,
                      next_keyset_pair = dict_or additional last,
                      previous_keyset_pair = keyset_pairs prev\<rparr>))"

text \<open>The sequence protocol of \<^verbatim>\<open>AbstractPage\<close>: \<^verbatim>\<open>__len__\<close>, \<^verbatim>\<open>__getitem__\<close>, \<^verbatim>\<open>__iter__\<close>.\<close>

definition page_len :: "'v key_set_page \<Rightarrow> int" where
  "page_len pg = int (length (rows pg))"

definition page_getitem :: "'v key_set_page \<Rightarrow> int \<Rightarrow> error + 'v entry" where
  "page_getitem pg i = getitem (rows pg) i"

definition page_iter :: "'v key_set_page \<Rightarrow> 'v entry list" where
  "page_iter pg = rows pg"

text \<open>The properties of \<^verbatim>\<open>KeySetPage\<close>.\<close>

definition KeySetPage_total_pages_count :: "'v key_set_page \<Rightarrow> error + int" where
  "KeySetPage_total_pages_count pg = Inl TypeError"

definition KeySetPage_current_page_number :: "'v key_set_page \<Rightarrow> error + int" where
  "KeySetPage_current_page_number pg = Inl TypeError"

definition KeySetPage_last_page :: "'v key_set_page \<Rightarrow> error + 'v item bookmark" where
  "KeySetPage_last_page pg = Inl TypeError"

definition KeySetPage_first_page :: "'v key_set_page \<Rightarrow> 'v item bookmark" where
  "KeySetPage_first_page pg = empty_bookmark"

definition KeySetPage_is_full :: "'v key_set_page \<Rightarrow> bool" where
  "KeySetPage_is_full pg = (page_len pg = expected_entries_count (metadata pg))"

definition KeySetPage_has_next :: "'v key_set_page \<Rightarrow> bool" where
  "KeySetPage_has_next pg = (next_keyset_pair pg \<noteq> None)"

definition KeySetPage_next :: "'v key_set_page \<Rightarrow> 'v item bookmark" where
  "KeySetPage_next pg =
     (if \<not> KeySetPage_has_next pg then empty_bookmark
      else \<lparr>keyset_pairs = next_keyset_pair pg, direction = Some ''forward'', offset = None\<rparr>)"

definition KeySetPage_has_previous :: "'v key_set_page \<Rightarrow> bool" where
  "KeySetPage_has_previous pg = (previous_keyset_pair pg \<noteq> None)"

definition KeySetPage_previous :: "'v key_set_page \<Rightarrow> 'v item bookmark" where
  "KeySetPage_previous pg =
     (if \<not> KeySetPage_has_previous pg then empty_bookmark
      else \<lparr>keyset_pairs = previous_keyset_pair pg, direction = Some ''backward'', offset = None\<rparr>)"

text \<open>\<^verbatim>\<open>KeySetPaginator.parse_result\<close>\<close>

definition parse_result :: "'v item key_set_paginator \<Rightarrow> 'v row list \<Rightarrow> error + 'v key_set_page" where
  "parse_result p resulted_rows =
     KeySetPage (unpack_rows_if_row_contains_only_orm_model resulted_rows)
       \<lparr>meta_page_size = page_size p, meta_order_by_columns = order_by_columns p,
        meta_bookmark = bookmark p\<rparr>"

section \<open>The limit-offset page (\<^verbatim>\<open>paginators/limit_offset/page.py\<close>)\<close>

record 'r limit_offset_page =
  lo_rows :: "'r list"
  lo_page_size :: int
  lo_rows_count :: int
  lo_current_offset :: int

definition LimitOffsetPage :: "'r list \<Rightarrow> int \<Rightarrow> int \<Rightarrow> int \<Rightarrow> 'r limit_offset_page" where
  "LimitOffsetPage rs psize off rows_count =
     \<lparr>lo_rows = rs, lo_page_size = psize, lo_rows_count = rows_count, lo_current_offset = off\<rparr>"

definition LimitOffsetPage_has_next :: "'r limit_offset_page \<Rightarrow> bool" where
  "LimitOffsetPage_has_next pg = (lo_current_offset pg + lo_page_size pg < lo_rows_count pg)"

definition LimitOffsetPage_next :: "'r limit_offset_page \<Rightarrow> 'v bookmark" where
  "LimitOffsetPage_next pg =
     (if \<not> LimitOffsetPage_has_next pg then empty_bookmark
      else \<lparr>keyset_pairs = None, direction = None,
            offset = Some (lo_current_offset pg + lo_page_size pg)\<rparr>)"

definition LimitOffsetPage_has_previous :: "'r limit_offset_page \<Rightarrow> bool" where
  "LimitOffsetPage_has_previous pg =
     (if lo_current_offset pg = 0 \<or> lo_current_offset pg < lo_page_size pg then False
      else lo_current_offset pg < lo_page_size pg)"

definition LimitOffsetPage_previous :: "'r limit_offset_page \<Rightarrow> 'v bookmark" where
  "LimitOffsetPage_previous pg =
     (if \<not> LimitOffsetPage_has_previous pg then empty_bookmark
      else \<lparr>keyset_pairs = None, direction = None,
            offset = Some (lo_current_offset pg - lo_page_size pg)\<rparr>)"


section \<open>A backing store\<close>

text \<open>
  The database is outside the repository. To run a fetch from end to end, a table is
  a list of rows (column name and value), and executing a statement keeps the rows
  that satisfy every WHERE condition, sorts them by the ORDER BY clauses (a stable
  insertion sort, descending for a \<open>desc_op\<close> clause) and cuts the result at the
  LIMIT. Each result row holds one ORM instance, as for \<^verbatim>\<open>select(Author)\<close>. Grouping
  is not part of this store.
\<close>

fun operand_value :: "(string \<times> 'v) list \<Rightarrow> 'v item operand \<Rightarrow> 'v option" where
  "operand_value r (BindParameter (Scalar v)) = Some v"
| "operand_value r (BindParameter (Instance a)) = None"
| "operand_value r (Expression (ColumnClause t n)) = map_of r n"
| "operand_value r (Expression (UnaryExpression m e)) = None"
| "operand_value r (Expression (Label l e)) = None"
| "operand_value r (Expression (label_reference e)) = None"

fun sorted_column :: "column_element \<Rightarrow> column_element" where
  "sorted_column (UnaryExpression m e) = sorted_column e"
| "sorted_column (Label l e) = sorted_column e"
| "sorted_column (label_reference e) = sorted_column e"
| "sorted_column (ColumnClause t n) = ColumnClause t n"

fun null_lt :: "'v::linorder option \<Rightarrow> 'v option \<Rightarrow> bool" where
  "null_lt (Some a) (Some b) = (a < b)"
| "null_lt None (Some b) = True"
| "null_lt a None = False"

fun row_before :: "column_element list \<Rightarrow> (string \<times> 'v::linorder) list \<Rightarrow> (string \<times> 'v) list \<Rightarrow> bool" where
  "row_before [] r1 r2 = False"
| "row_before (c # cs) r1 r2 =
     (let k1 = operand_value r1 (Expression (sorted_column c));
          k2 = operand_value r2 (Expression (sorted_column c))
      in if get_order_direction c = Some desc_op
         then null_lt k2 k1 \<or> (k1 = k2 \<and> row_before cs r1 r2)
         else null_lt k1 k2 \<or> (k1 = k2 \<and> row_before cs r1 r2))"

fun insert_row :: "('r \<Rightarrow> 'r \<Rightarrow> bool) \<Rightarrow> 'r \<Rightarrow> 'r list \<Rightarrow> 'r list" where
  "insert_row before r [] = [r]"
| "insert_row before r (x # xs) =
     (if before r x then r # x # xs else x # insert_row before r xs)"

definition sort_rows :: "('r \<Rightarrow> 'r \<Rightarrow> bool) \<Rightarrow> 'r list \<Rightarrow> 'r list" where
  "sort_rows before rs = foldl (\<lambda>acc r. insert_row before r acc) [] rs"

definition execute ::
  "string \<Rightarrow> 'v item select \<Rightarrow> (string \<times> 'v::linorder) list list \<Rightarrow> 'v row list"
where
  "execute entity q table =
     (let matching = filter (\<lambda>r. \<forall>c \<in> set (sel_where_criteria q). eval_clause (operand_value r) c) table;
          sorted = sort_rows (row_before (sel_order_by_clauses q)) matching;
          limited = (case sel_limit_clause q of None \<Rightarrow> sorted | Some n \<Rightarrow> take (nat n) sorted)
      in map (\<lambda>r. [(entity, Instance r)]) limited)"

text \<open>
  One fetch, as \<^verbatim>\<open>examples/rest_api.py\<close> does it: build the paginator, execute its
  statement, parse the rows into a page.
\<close>

definition fetch_page ::
  "(column_element \<Rightarrow> string) \<Rightarrow> (order_by_column_wrapper \<Rightarrow> mapped_order_column)
     \<Rightarrow> string \<Rightarrow> (string \<times> 'v::linorder) list list
     \<Rightarrow> 'v item select \<Rightarrow> int \<Rightarrow> dialect option \<Rightarrow> 'v item bookmark option
     \<Rightarrow> error + 'v key_set_page"
where
  "fetch_page str_of find_order_key entity table query_or_select psize d bm =
     bind_err (KeySetPaginator str_of find_order_key query_or_select psize d bm) (\<lambda>p.
       bind_err (get_modified_sql_statement p) (\<lambda>statement.
         parse_result p (execute entity statement table)))"

subsection \<open>The authors table of the tests\<close>

text \<open>
  \<^verbatim>\<open>select(Author).order_by(Author.id)\<close> over authors with ids 1 to 5. The text of
  a column is its name, qualified by its table; the ordering key \<^verbatim>\<open>authors.id\<close> is
  the attribute \<^verbatim>\<open>id\<close> of the selected entity.
\<close>

definition authors_id :: column_element where
  "authors_id = ColumnClause (Some ''authors'') ''id''"

fun column_text :: "column_element \<Rightarrow> string" where
  "column_text (ColumnClause None n) = n"
| "column_text (ColumnClause (Some t) n) = t @ ''.'' @ n"
| "column_text (UnaryExpression m e) = column_text e"
| "column_text (Label l e) = column_text e"
| "column_text (label_reference e) = column_text e"

definition authors_order_key :: "order_by_column_wrapper \<Rightarrow> mapped_order_column" where
  "authors_order_key w = AttributeColumn w 0 ''id''"

definition authors_table :: "(string \<times> int) list list" where
  "authors_table = [[(''id'', 1)], [(''id'', 2)], [(''id'', 3)], [(''id'', 4)], [(''id'', 5)]]"

definition authors_query :: "int item select" where
  "authors_query =
     \<lparr>sel_where_criteria = [], sel_having_criteria = [], sel_order_by_clauses = [authors_id],
      sel_group_by_clauses = Some [], sel_limit_clause = None\<rparr>"

definition author :: "int \<Rightarrow> int entry" where
  "author i = ItemEntry (Instance [(''id'', i)])"

definition id_bookmark :: "int \<Rightarrow> string \<Rightarrow> int item bookmark" where
  "id_bookmark i dir =
     \<lparr>keyset_pairs = Some [(''id'', Scalar i)], direction = Some dir, offset = None\<rparr>"

definition fetch_authors :: "int \<Rightarrow> int item bookmark option \<Rightarrow> error + int key_set_page" where
  "fetch_authors psize bm =
     fetch_page column_text authors_order_key ''Author'' authors_table authors_query psize None bm"

definition authors_key :: "column_element \<Rightarrow> order_by_column_wrapper" where
  "authors_key c =
     \<lparr>column_name_or_obj = c, full_name = ''authors.id'', table_name = Some ''authors'',
      name = ''id''\<rparr>"

definition authors_paginator :: "int \<Rightarrow> int item bookmark \<Rightarrow> int item key_set_paginator" where
  "authors_paginator psize b =
     \<lparr>page_size = psize, select_or_query = authors_query, bookmark = b,
      order_by_columns = [authors_key (if is_backward b then desc authors_id else asc authors_id)],
      order_by_clauses = [if is_backward b then desc authors_id else asc authors_id],
      dialect = None\<rparr>"

definition authors_statement ::
  "int item operand clause list \<Rightarrow> column_element \<Rightarrow> int \<Rightarrow> int item select" where
  "authors_statement conditions clause n =
     \<lparr>sel_where_criteria = conditions, sel_having_criteria = [],
      sel_order_by_clauses = [clause], sel_group_by_clauses = Some [],
      sel_limit_clause = Some n\<rparr>"

definition name_bookmark :: "int item bookmark" where
  "name_bookmark =
     \<lparr>keyset_pairs = Some [(''name'', Scalar 10)], direction = Some ''forward'', offset = None\<rparr>"

definition authors_metadata :: "int \<Rightarrow> int item bookmark \<Rightarrow> int parsing_metadata" where
  "authors_metadata psize b =
     \<lparr>meta_page_size = psize,
      meta_order_by_columns = [authors_key (if is_backward b then desc authors_id else asc authors_id)],
      meta_bookmark = b\<rparr>"

section \<open>Auxiliary functions for the proofs\<close>

text \<open>
  What the two bounded loops compute when they do not run out of iterations, and
  how many iterations they need.
\<close>

fun flip_direction :: "column_element \<Rightarrow> column_element" where
  "flip_direction (UnaryExpression m e) =
     (if m = Some asc_op then UnaryExpression (Some desc_op) e
      else if m = Some desc_op then UnaryExpression (Some asc_op) e
      else UnaryExpression m (flip_direction e))"
| "flip_direction (Label l e) = Label l (flip_direction e)"
| "flip_direction (label_reference e) = label_reference (flip_direction e)"
| "flip_direction (ColumnClause t n) = ColumnClause t n"

fun direction_depth :: "column_element \<Rightarrow> nat" where
  "direction_depth (UnaryExpression m e) =
     (if m = Some asc_op \<or> m = Some desc_op then 0 else Suc (direction_depth e))"
| "direction_depth (Label l e) = Suc (direction_depth e)"
| "direction_depth (label_reference e) = Suc (direction_depth e)"
| "direction_depth (ColumnClause t n) = 0"

fun strip_modifiers :: "column_element \<Rightarrow> column_element" where
  "strip_modifiers (UnaryExpression m e) =
     (if m = None then UnaryExpression m (strip_modifiers e) else strip_modifiers e)"
| "strip_modifiers (Label l e) = Label l (strip_modifiers e)"
| "strip_modifiers (label_reference e) = label_reference (strip_modifiers e)"
| "strip_modifiers (ColumnClause t n) = ColumnClause t n"

fun chain_depth :: "column_element \<Rightarrow> nat" where
  "chain_depth (UnaryExpression m e) = Suc (chain_depth e)"
| "chain_depth (Label l e) = Suc (chain_depth e)"
| "chain_depth (label_reference e) = Suc (chain_depth e)"
| "chain_depth (ColumnClause t n) = 0"

text \<open>The wrapper that \<^verbatim>\<open>OrderByColumnWrapper.__init__\<close> builds around an expression that has a direction.\<close>

definition wrapper_of :: "(column_element \<Rightarrow> string) \<Rightarrow> column_element \<Rightarrow> order_by_column_wrapper" where
  "wrapper_of str_of c =
     (let fn = str_of (strip_modifiers c)
      in (case split_dot fn of
            None \<Rightarrow> \<lparr>column_name_or_obj = c, full_name = fn, table_name = None, name = fn\<rparr>
          | Some (t, n) \<Rightarrow>
              \<lparr>column_name_or_obj = c, full_name = fn, table_name = Some t, name = n\<rparr>))"


section \<open>Properties of the ordering utilities\<close>

lemma in_ORDER_MODIFIERS: "m \<in> Some ` set ORDER_MODIFIERS \<longleftrightarrow> m \<noteq> None"
proof (cases m)
  case None
  then show ?thesis by auto
next
  case (Some a)
  then show ?thesis by (cases a) (auto simp: ORDER_MODIFIERS_def)
qed

lemma reverse_order_direction_loop_eq:
  "reverse_order_direction_loop n x =
     (if direction_depth x < n then Inr (flip_direction x) else Inl WrappingOverflow)"
proof (induction n arbitrary: x)
  case 0
  then show ?case by simp
next
  case (Suc n)
  show ?case by (cases x) (auto simp: Suc.IH)
qed

lemma remove_order_direction_loop_eq:
  "remove_order_direction_loop n x =
     (if chain_depth x < n then Inr (strip_modifiers x) else Inl WrappingOverflow)"
proof (induction n arbitrary: x)
  case 0
  then show ?case by simp
next
  case (Suc n)
  show ?case by (cases x) (auto simp: Suc.IH in_ORDER_MODIFIERS)
qed

lemma direction_depth_le: "direction_depth x \<le> chain_depth x"
  by (induction x) auto

lemma flip_direction_twice: "flip_direction (flip_direction x) = x"
  by (induction x) auto

lemma chain_depth_flip: "chain_depth (flip_direction x) = chain_depth x"
  by (induction x) auto

lemma strip_modifiers_flip: "strip_modifiers (flip_direction x) = strip_modifiers x"
  by (induction x) auto

lemma get_order_direction_flip:
  "get_order_direction (flip_direction x) =
     (case get_order_direction x of
        None \<Rightarrow> None
      | Some d \<Rightarrow> Some (if d = asc_op then desc_op else asc_op))"
  by (induction x) auto

lemma get_order_direction_cases:
  "get_order_direction x = None \<or> get_order_direction x = Some asc_op \<or> get_order_direction x = Some desc_op"
  by (induction x) auto


lemma remove_order_direction_eq:
  "remove_order_direction x =
     (if chain_depth x < WRAPPING_DEPTH then Inr (strip_modifiers x) else Inl WrappingOverflow)"
  by (simp add: remove_order_direction_def remove_order_direction_loop_eq)

lemma reverse_order_direction_eq:
  "reverse_order_direction x =
     (if direction_depth x < WRAPPING_DEPTH then Inr (flip_direction x) else Inl WrappingOverflow)"
  by (simp add: reverse_order_direction_def reverse_order_direction_loop_eq)

lemma column_name_or_obj_wrapper_of [simp]: "column_name_or_obj (wrapper_of str_of c) = c"
  by (simp add: wrapper_of_def Let_def split: option.split prod.split)

lemma name_wrapper_of_flip [simp]: "name (wrapper_of str_of (flip_direction c)) = name (wrapper_of str_of c)"
  by (simp add: wrapper_of_def Let_def strip_modifiers_flip split: option.split prod.split)

lemma OrderByColumnWrapper_expr:
  assumes "get_order_direction c \<noteq> None" and "chain_depth c < WRAPPING_DEPTH"
  shows "OrderByColumnWrapper str_of (Inr c) = Inr (wrapper_of str_of c)"
proof -
  from assms(1) obtain d where d: "get_order_direction c = Some d"
    by auto
  show ?thesis
    unfolding OrderByColumnWrapper_def wrapper_of_def
    using assms(2)
    by (simp add: d bind_err_def remove_order_direction_eq Let_def split: option.split prod.split)
qed

lemma OrderByColumnWrapper_built:
  assumes "OrderByColumnWrapper str_of arg = Inr w"
  shows "get_order_direction (column_name_or_obj w) \<noteq> None
       \<and> chain_depth (column_name_or_obj w) < WRAPPING_DEPTH
       \<and> w = wrapper_of str_of (column_name_or_obj w)"
proof -
  define c0 where "c0 = (case arg of Inl s \<Rightarrow> column s | Inr e \<Rightarrow> e)"
  define c where "c = (if get_order_direction c0 = None then asc c0 else c0)"
  have dir: "get_order_direction c \<noteq> None"
    by (simp add: c_def asc_def)
  from assms have run:
    "bind_err (remove_order_direction c) (\<lambda>el.
       let fn = str_of el
       in Inr (case split_dot fn of
                 None \<Rightarrow> \<lparr>column_name_or_obj = c, full_name = fn, table_name = None, name = fn\<rparr>
               | Some (t, n) \<Rightarrow>
                   \<lparr>column_name_or_obj = c, full_name = fn, table_name = Some t, name = n\<rparr>)) = Inr w"
    unfolding OrderByColumnWrapper_def c_def c0_def Let_def by simp
  have depth: "chain_depth c < WRAPPING_DEPTH"
  proof (rule ccontr)
    assume "\<not> chain_depth c < WRAPPING_DEPTH"
    then have "remove_order_direction c = Inl WrappingOverflow"
      by (simp add: remove_order_direction_eq)
    with run show False
      by (simp add: bind_err_def)
  qed
  from run depth have w: "w = wrapper_of str_of c"
    by (auto simp: bind_err_def remove_order_direction_eq wrapper_of_def Let_def
        split: option.splits prod.splits)
  then have "column_name_or_obj w = c"
    by simp
  with dir depth w show ?thesis by simp
qed

lemma reversed_wrapper_of:
  assumes "get_order_direction c \<noteq> None" and "chain_depth c < WRAPPING_DEPTH"
  shows "reversed str_of (wrapper_of str_of c) = Inr (wrapper_of str_of (flip_direction c))"
proof -
  have "direction_depth c < WRAPPING_DEPTH"
    using assms(2) direction_depth_le [of c] by simp
  then have rev: "reverse_order_direction c = Inr (flip_direction c)"
    by (simp add: reverse_order_direction_eq)
  have "get_order_direction (flip_direction c) \<noteq> None"
    using assms(1) by (simp add: get_order_direction_flip split: option.split)
  moreover have "chain_depth (flip_direction c) < WRAPPING_DEPTH"
    using assms(2) by (simp add: chain_depth_flip)
  ultimately show ?thesis
    by (simp add: reversed_def rev bind_err_def OrderByColumnWrapper_expr)
qed


lemma reversed_built:
  assumes "OrderByColumnWrapper str_of arg = Inr w"
  shows "\<exists>w'. reversed str_of w = Inr w' \<and> reversed str_of w' = Inr w
            \<and> OrderByColumnWrapper str_of (Inr (column_name_or_obj w')) = Inr w'
            \<and> name w' = name w
            \<and> get_order_direction (column_name_or_obj w') \<noteq> get_order_direction (column_name_or_obj w)"
proof -
  let ?c = "column_name_or_obj w"
  from OrderByColumnWrapper_built [OF assms]
  have dir: "get_order_direction ?c \<noteq> None"
    and depth: "chain_depth ?c < WRAPPING_DEPTH"
    and w: "w = wrapper_of str_of ?c"
    by simp_all
  let ?w' = "wrapper_of str_of (flip_direction ?c)"
  have dir': "get_order_direction (flip_direction ?c) \<noteq> None"
    using dir by (simp add: get_order_direction_flip split: option.split)
  have depth': "chain_depth (flip_direction ?c) < WRAPPING_DEPTH"
    using depth by (simp add: chain_depth_flip)
  have 1: "reversed str_of w = Inr ?w'"
    using reversed_wrapper_of [OF dir depth, of str_of] w by simp
  have 2: "reversed str_of ?w' = Inr w"
    using reversed_wrapper_of [OF dir' depth', of str_of] w by (simp add: flip_direction_twice)
  have 3: "OrderByColumnWrapper str_of (Inr (column_name_or_obj ?w')) = Inr ?w'"
    using OrderByColumnWrapper_expr [OF dir' depth'] by simp
  have 4: "name ?w' = name w"
    using w name_wrapper_of_flip [of str_of ?c] by simp
  have 5: "get_order_direction (column_name_or_obj ?w') \<noteq> get_order_direction ?c"
    using dir by (auto simp: get_order_direction_flip split: option.splits if_splits)
  from 1 2 3 4 5 show ?thesis by blast
qed

lemma map_err_Inr_Cons:
  "map_err f (x # xs) = Inr zs \<longleftrightarrow> (\<exists>y ys. f x = Inr y \<and> map_err f xs = Inr ys \<and> zs = y # ys)"
  by (auto split: sum.splits)

lemma reversed_all_built:
  assumes "map_err (OrderByColumnWrapper str_of) args = Inr ws"
  shows "\<exists>ws'. map_err (reversed str_of) ws = Inr ws' \<and> map_err (reversed str_of) ws' = Inr ws
           \<and> map name ws' = map name ws"
  using assms
proof (induction args arbitrary: ws)
  case Nil
  then show ?case by simp
next
  case (Cons a args)
  from Cons.prems obtain w ws0 where a: "OrderByColumnWrapper str_of a = Inr w"
    and rest: "map_err (OrderByColumnWrapper str_of) args = Inr ws0" and ws: "ws = w # ws0"
    unfolding map_err_Inr_Cons by blast
  from Cons.IH [OF rest] obtain ws0' where
    r1: "map_err (reversed str_of) ws0 = Inr ws0'" and r2: "map_err (reversed str_of) ws0' = Inr ws0"
    and r3: "map name ws0' = map name ws0"
    by blast
  from reversed_built [OF a] obtain w' where
    w1: "reversed str_of w = Inr w'" and w2: "reversed str_of w' = Inr w" and w3: "name w' = name w"
    by blast
  have "map_err (reversed str_of) ws = Inr (w' # ws0')"
    by (simp add: ws w1 r1)
  moreover have "map_err (reversed str_of) (w' # ws0') = Inr ws"
    by (simp add: ws w2 r2)
  moreover have "map name (w' # ws0') = map name ws"
    by (simp add: ws w3 r3)
  ultimately show ?case by blast
qed

lemma map_err_set:
  "map_err f xs = Inr ys \<Longrightarrow> y \<in> set ys \<Longrightarrow> \<exists>x \<in> set xs. f x = Inr y"
  by (induction xs arbitrary: ys) (auto split: sum.splits)


text \<open>
  Claim C7. Every ordering key built by \<^verbatim>\<open>OrderByColumnWrapper\<close> (ascending or
  descending, the direction modifier on top or nested below other wrappers) can be
  reversed, and reversing the result gives back the very same key: the same
  expression and element, the same direction, while the key in between has the
  opposite direction. Hence reversing a whole ordering specification twice gives
  back the specification, key by key in the same order.
\<close>

theorem reversed_twice:
  assumes "map_err (OrderByColumnWrapper str_of) args = Inr ws"
  shows "(\<forall>w \<in> set ws. \<exists>w' w''.
            reversed str_of w = Inr w' \<and> reversed str_of w' = Inr w''
          \<and> element w'' = element w \<and> is_ascending w'' = is_ascending w
          \<and> is_ascending w' \<noteq> is_ascending w \<and> w'' = w)
       \<and> (\<exists>ws' ws''.
            map_err (reversed str_of) ws = Inr ws' \<and> map_err (reversed str_of) ws' = Inr ws''
          \<and> ws'' = ws)"
proof
  show "\<forall>w \<in> set ws. \<exists>w' w''.
            reversed str_of w = Inr w' \<and> reversed str_of w' = Inr w''
          \<and> element w'' = element w \<and> is_ascending w'' = is_ascending w
          \<and> is_ascending w' \<noteq> is_ascending w \<and> w'' = w"
  proof
    fix w assume "w \<in> set ws"
    with map_err_set [OF assms] obtain arg where arg: "OrderByColumnWrapper str_of arg = Inr w"
      by blast
    from reversed_built [OF arg] obtain w' where
      1: "reversed str_of w = Inr w'" and 2: "reversed str_of w' = Inr w"
      and 3: "get_order_direction (column_name_or_obj w') \<noteq> get_order_direction (column_name_or_obj w)"
      by blast
    from OrderByColumnWrapper_built [OF arg]
    have dir: "get_order_direction (column_name_or_obj w) \<noteq> None" by simp
    from reversed_built [OF arg] 1 have "OrderByColumnWrapper str_of (Inr (column_name_or_obj w')) = Inr w'"
      by auto
    from OrderByColumnWrapper_built [OF this]
    have dir': "get_order_direction (column_name_or_obj w') \<noteq> None" by simp
    have "is_ascending w' \<noteq> is_ascending w"
      using 3 dir dir' get_order_direction_cases [of "column_name_or_obj w"]
        get_order_direction_cases [of "column_name_or_obj w'"]
      by (auto simp: is_ascending_def)
    with 1 2 show "\<exists>w' w''.
            reversed str_of w = Inr w' \<and> reversed str_of w' = Inr w''
          \<and> element w'' = element w \<and> is_ascending w'' = is_ascending w
          \<and> is_ascending w' \<noteq> is_ascending w \<and> w'' = w"
      by blast
  qed
next
  from reversed_all_built [OF assms]
  show "\<exists>ws' ws''.
            map_err (reversed str_of) ws = Inr ws' \<and> map_err (reversed str_of) ws' = Inr ws''
          \<and> ws'' = ws"
    by blast
qed

theorem reversed_twice_witness:
  "map_err (OrderByColumnWrapper column_text)
     [Inr (UnaryExpression (Some nullsfirst_op) (desc authors_id)), Inr authors_id]
   = Inr [\<lparr>column_name_or_obj = UnaryExpression (Some nullsfirst_op) (desc authors_id),
            full_name = ''authors.id'', table_name = Some ''authors'', name = ''id''\<rparr>,
          \<lparr>column_name_or_obj = asc authors_id,
            full_name = ''authors.id'', table_name = Some ''authors'', name = ''id''\<rparr>]
   \<and> (\<exists>ws' ws''.
         map_err (reversed column_text)
           [\<lparr>column_name_or_obj = UnaryExpression (Some nullsfirst_op) (desc authors_id),
              full_name = ''authors.id'', table_name = Some ''authors'', name = ''id''\<rparr>,
            \<lparr>column_name_or_obj = asc authors_id,
              full_name = ''authors.id'', table_name = Some ''authors'', name = ''id''\<rparr>] = Inr ws'
       \<and> map_err (reversed column_text) ws' = Inr ws''
       \<and> ws'' =
           [\<lparr>column_name_or_obj = UnaryExpression (Some nullsfirst_op) (desc authors_id),
              full_name = ''authors.id'', table_name = Some ''authors'', name = ''id''\<rparr>,
            \<lparr>column_name_or_obj = asc authors_id,
              full_name = ''authors.id'', table_name = Some ''authors'', name = ''id''\<rparr>])"
proof -
  have h: "map_err (OrderByColumnWrapper column_text)
     [Inr (UnaryExpression (Some nullsfirst_op) (desc authors_id)), Inr authors_id]
   = Inr [\<lparr>column_name_or_obj = UnaryExpression (Some nullsfirst_op) (desc authors_id),
            full_name = ''authors.id'', table_name = Some ''authors'', name = ''id''\<rparr>,
          \<lparr>column_name_or_obj = asc authors_id,
            full_name = ''authors.id'', table_name = Some ''authors'', name = ''id''\<rparr>]"
    by (simp add: OrderByColumnWrapper_def bind_err_def remove_order_direction_eq
        WRAPPING_DEPTH_def desc_def asc_def authors_id_def column_def)
  from reversed_twice [OF h] h show ?thesis
    by blast
qed

lemma get_order_direction_Labels:
  "get_order_direction ((Label l ^^ n) x) = get_order_direction x"
  by (induction n) auto

lemma direction_depth_Labels:
  "direction_depth ((Label l ^^ n) x) = n + direction_depth x"
  by (induction n) auto

lemma chain_depth_Labels:
  "chain_depth ((Label l ^^ n) x) = n + chain_depth x"
  by (induction n) auto


text \<open>
  Claim C9. \<^verbatim>\<open>_get_order_direction\<close> has no depth bound: on a chain of 1001 labels
  around an ascending column it recurses through every level and returns \<open>asc_op\<close>,
  where \<^verbatim>\<open>_reverse_order_direction\<close> and \<^verbatim>\<open>_remove_order_direction\<close> stop after
  \<open>WRAPPING_DEPTH\<close> iterations with the wrapping-overflow exception.
\<close>

theorem get_order_direction_not_depth_bounded:
  "get_order_direction ((Label ''l'' ^^ 1001) (asc (column ''id''))) = Some asc_op
   \<and> reverse_order_direction ((Label ''l'' ^^ 1001) (asc (column ''id''))) = Inl WrappingOverflow
   \<and> remove_order_direction ((Label ''l'' ^^ 1001) (asc (column ''id''))) = Inl WrappingOverflow"
  by (simp add: get_order_direction_Labels reverse_order_direction_eq remove_order_direction_eq
      direction_depth_Labels chain_depth_Labels WRAPPING_DEPTH_def asc_def)


section \<open>The row comparator\<close>

lemma row_value_lt_iff_index:
  assumes "length xs = length ys"
  shows "row_value_lt xs ys \<longleftrightarrow>
           (\<exists>d < length xs. (\<forall>i < d. xs ! i = ys ! i) \<and> xs ! d < ys ! d)"
  using assms
proof (induction xs ys rule: list_induct2)
  case Nil
  then show ?case by simp
next
  case (Cons x xs y ys)
  show ?case
  proof
    assume "row_value_lt (x # xs) (y # ys)"
    then consider "x < y" | "x = y" "row_value_lt xs ys"
      by auto
    then show "\<exists>d < length (x # xs). (\<forall>i < d. (x # xs) ! i = (y # ys) ! i) \<and> (x # xs) ! d < (y # ys) ! d"
    proof cases
      case 1
      then have "(\<forall>i < 0. (x # xs) ! i = (y # ys) ! i) \<and> (x # xs) ! 0 < (y # ys) ! 0"
        by simp
      then show ?thesis by blast
    next
      case 2
      with Cons.IH obtain d where d: "d < length xs" "\<forall>i < d. xs ! i = ys ! i" "xs ! d < ys ! d"
        by blast
      have "\<forall>i < Suc d. (x # xs) ! i = (y # ys) ! i"
        using d(2) 2(1) by (simp add: nth_Cons split: nat.split)
      moreover have "(x # xs) ! Suc d < (y # ys) ! Suc d"
        using d(3) by simp
      moreover have "Suc d < length (x # xs)"
        using d(1) by simp
      ultimately show ?thesis by blast
    qed
  next
    assume "\<exists>d < length (x # xs). (\<forall>i < d. (x # xs) ! i = (y # ys) ! i) \<and> (x # xs) ! d < (y # ys) ! d"
    then obtain d where d: "d < length (x # xs)" "\<forall>i < d. (x # xs) ! i = (y # ys) ! i"
      "(x # xs) ! d < (y # ys) ! d"
      by blast
    show "row_value_lt (x # xs) (y # ys)"
    proof (cases d)
      case 0
      with d(3) show ?thesis by simp
    next
      case (Suc d')
      have "x = y"
        using d(2) Suc by (metis nth_Cons_0 zero_less_Suc)
      moreover have "d' < length xs"
        using d(1) Suc by simp
      moreover have "\<forall>i < d'. xs ! i = ys ! i"
        using d(2) Suc by (metis Suc_less_eq nth_Cons_Suc)
      moreover have "xs ! d' < ys ! d'"
        using d(3) Suc by simp
      ultimately show ?thesis
        using Cons.IH by auto
    qed
  qed
qed

lemma eval_decomposed:
  "eval_clause (Some \<circ> v)
     (Or (map (\<lambda>eq_depth.
            And (map (\<lambda>index. Eq (ls ! index) (gs ! index)) [0..<eq_depth]
                 @ [Lt (ls ! eq_depth) (gs ! eq_depth)]))
          [0..<n]))
   \<longleftrightarrow> (\<exists>d < n. (\<forall>i < d. v (ls ! i) = v (gs ! i)) \<and> v (ls ! d) < v (gs ! d))"
  by (auto simp: Bex_def)

lemma sql_row_lt_Some:
  "sql_row_lt (map (Some \<circ> v) xs) (map (Some \<circ> v) ys) = row_value_lt (map v xs) (map v ys)"
proof (induction xs arbitrary: ys)
  case Nil
  then show ?case by simp
next
  case (Cons x xs)
  then show ?case by (cases ys) simp_all
qed


text \<open>
  Claim C3. For tuples of equal length with at least two keys, on a dialect without
  native row-value comparison, \<^verbatim>\<open>_compare_sql_row_values\<close> returns the disjunction over
  \<open>eq_depth\<close> of (equality on the positions before \<open>eq_depth\<close> and \<open><\<close> at
  \<open>eq_depth\<close>); on every assignment \<open>v\<close> of comparable (non-NULL) values to the
  operands this condition is true exactly when the tuple of the lesser values is
  lexicographically less than the tuple of the greater ones, which is also exactly
  when the native tuple comparison is true.
\<close>

theorem compare_sql_row_values_lexicographic:
  assumes "length lesser_row = length greater_row"
    and "2 \<le> length lesser_row"
    and "\<not> supports_native_row_values d"
  shows "compare_sql_row_values d lesser_row greater_row =
           Inr (Or (map (\<lambda>eq_depth.
                     And (map (\<lambda>index. Eq (lesser_row ! index) (greater_row ! index)) [0..<eq_depth]
                          @ [Lt (lesser_row ! eq_depth) (greater_row ! eq_depth)]))
                   [0..<length lesser_row]))
       \<and> (eval_clause (Some \<circ> v)
             (Or (map (\<lambda>eq_depth.
                     And (map (\<lambda>index. Eq (lesser_row ! index) (greater_row ! index)) [0..<eq_depth]
                          @ [Lt (lesser_row ! eq_depth) (greater_row ! eq_depth)]))
                   [0..<length lesser_row]))
            \<longleftrightarrow> row_value_lt (map v lesser_row) (map v greater_row))
       \<and> (eval_clause (Some \<circ> v) (TupleLt lesser_row greater_row)
            \<longleftrightarrow> row_value_lt (map v lesser_row) (map v greater_row))"
proof -
  let ?c = "Or (map (\<lambda>eq_depth.
                     And (map (\<lambda>index. Eq (lesser_row ! index) (greater_row ! index)) [0..<eq_depth]
                          @ [Lt (lesser_row ! eq_depth) (greater_row ! eq_depth)]))
                   [0..<length lesser_row])"
  have c: "compare_sql_row_values d lesser_row greater_row = Inr ?c"
    using assms by (simp add: compare_sql_row_values_def)
  have "row_value_lt (map v lesser_row) (map v greater_row) \<longleftrightarrow>
          (\<exists>k < length lesser_row. (\<forall>i < k. v (lesser_row ! i) = v (greater_row ! i))
              \<and> v (lesser_row ! k) < v (greater_row ! k))"
    using row_value_lt_iff_index [of "map v lesser_row" "map v greater_row"] assms(1)
    by auto
  then have e: "eval_clause (Some \<circ> v) ?c \<longleftrightarrow> row_value_lt (map v lesser_row) (map v greater_row)"
    unfolding eval_decomposed by simp
  have t: "eval_clause (Some \<circ> v) (TupleLt lesser_row greater_row)
             \<longleftrightarrow> row_value_lt (map v lesser_row) (map v greater_row)"
    by (simp add: sql_row_lt_Some del: comp_apply o_apply)
  from c e t show ?thesis by simp
qed

theorem compare_sql_row_values_lexicographic_witness:
  "length [1, 5 :: int] = length [1, 7 :: int] \<and> 2 \<le> length [1, 5 :: int]
   \<and> \<not> supports_native_row_values None
   \<and> compare_sql_row_values None [1, 5 :: int] [1, 7] =
       Inr (Or [And [Lt 1 1], And [Eq 1 1, Lt 5 7]])
   \<and> eval_clause (Some \<circ> (\<lambda>x. x)) (Or [And [Lt 1 1], And [Eq 1 1, Lt (5 :: int) 7]])
   \<and> row_value_lt [1, 5 :: int] [1, 7]"
proof -
  have h1: "length [1, 5 :: int] = length [1, 7 :: int]" by simp
  have h2: "2 \<le> length [1, 5 :: int]" by simp
  have h3: "\<not> supports_native_row_values None" by (simp add: supports_native_row_values_def)
  have u: "[0..<2] = [0, 1]" "[0..<1] = [0]"
    by (simp_all add: upt_rec)
  from compare_sql_row_values_lexicographic [OF h1 h2 h3, of "\<lambda>x. x"] h3
  show ?thesis
    by (simp add: u)
qed


section \<open>The authors scenario, step by step\<close>

lemma split_dot_authors_id: "split_dot ''authors.id'' = Some (''authors'', ''id'')"
  by simp

lemma wrapper_authors_id:
  "OrderByColumnWrapper column_text (Inr authors_id) = Inr (authors_key (asc authors_id))"
  by (simp add: OrderByColumnWrapper_def bind_err_def remove_order_direction_eq
      WRAPPING_DEPTH_def asc_def authors_id_def authors_key_def)

lemma wrapper_desc_authors_id:
  "OrderByColumnWrapper column_text (Inr (desc authors_id)) = Inr (authors_key (desc authors_id))"
  by (simp add: OrderByColumnWrapper_def bind_err_def remove_order_direction_eq
      WRAPPING_DEPTH_def desc_def authors_id_def authors_key_def)

lemma reversed_authors_key:
  "reversed column_text (authors_key (asc authors_id)) = Inr (authors_key (desc authors_id))"
proof -
  have "reverse_order_direction (asc authors_id) = Inr (desc authors_id)"
    by (simp add: reverse_order_direction_eq WRAPPING_DEPTH_def asc_def desc_def)
  then show ?thesis
    by (simp add: reversed_def bind_err_def authors_key_def wrapper_desc_authors_id [unfolded authors_key_def])
qed

lemma KeySetPaginator_authors:
  "KeySetPaginator column_text authors_order_key authors_query psize None bm =
     Inr (authors_paginator psize (case bm of None \<Rightarrow> empty_bookmark | Some b \<Rightarrow> b))"
proof -
  have parsed: "parse_order_by_clause column_text authors_query = Inr [authors_key (asc authors_id)]"
    by (simp add: parse_order_by_clause_def authors_query_def wrapper_authors_id)
  have scaffold: "scaffold_order_by_clauses authors_order_key [authors_key c] = Inr [c]" for c
    by (simp add: scaffold_order_by_clauses_def authors_order_key_def authors_key_def)
  show ?thesis
    by (simp add: KeySetPaginator_def parsed bind_err_def reversed_authors_key scaffold
        authors_paginator_def Let_def)
qed

lemma statement_no_bookmark:
  "get_modified_sql_statement (authors_paginator psize empty_bookmark) =
     Inr (authors_statement [] (asc authors_id) (psize + 1))"
  by (simp add: get_modified_sql_statement_def apply_filter_condition_if_required_def
      authors_paginator_def bind_err_def select_order_by_def select_limit_def authors_query_def
      authors_statement_def is_backward_def empty_bookmark_def)

lemma id_bookmark_not_empty: "id_bookmark i dir \<noteq> empty_bookmark"
  by (simp add: id_bookmark_def empty_bookmark_def)

lemma pair_forward:
  "pair_for_comparison (authors_key (asc authors_id)) v None =
     Inr (Expression authors_id, BindParameter v)"
  by (simp add: pair_for_comparison_def comparable_value_def element_def is_ascending_def
      bind_err_def remove_order_direction_eq WRAPPING_DEPTH_def authors_key_def asc_def
      authors_id_def)

lemma pair_backward:
  "pair_for_comparison (authors_key (desc authors_id)) v None =
     Inr (BindParameter v, Expression authors_id)"
  by (simp add: pair_for_comparison_def comparable_value_def element_def is_ascending_def
      bind_err_def remove_order_direction_eq WRAPPING_DEPTH_def authors_key_def desc_def
      authors_id_def)

lemma id_bookmark_sel [simp]:
  "keyset_pairs (id_bookmark i dir) = Some [(''id'', Scalar i)]"
  "direction (id_bookmark i dir) = Some dir"
  by (simp_all add: id_bookmark_def)

lemma name_authors_key [simp]: "name (authors_key c) = ''id''"
  by (simp add: authors_key_def)

lemma filter_forward:
  "apply_filter_condition_if_required (authors_paginator psize (id_bookmark i ''forward'')) =
     Inr (authors_query\<lparr>sel_where_criteria :=
            [Lt (BindParameter (Scalar i)) (Expression authors_id)]\<rparr>)"
  by (simp add: apply_filter_condition_if_required_def authors_paginator_def is_backward_def
      id_bookmark_not_empty pair_forward bind_err_def compare_sql_row_values_def
      select_where_def authors_query_def)

lemma filter_backward:
  "apply_filter_condition_if_required (authors_paginator psize (id_bookmark i ''backward'')) =
     Inr (authors_query\<lparr>sel_where_criteria :=
            [Lt (Expression authors_id) (BindParameter (Scalar i))]\<rparr>)"
  by (simp add: apply_filter_condition_if_required_def authors_paginator_def is_backward_def
      id_bookmark_not_empty pair_backward bind_err_def compare_sql_row_values_def
      select_where_def authors_query_def)

lemma filter_no_bookmark:
  "apply_filter_condition_if_required (authors_paginator psize empty_bookmark) = Inr authors_query"
  by (simp add: apply_filter_condition_if_required_def authors_paginator_def)


section \<open>The modified statement\<close>

lemma map_err_Inl:
  "map_err f xs = Inl e \<Longrightarrow> \<exists>x \<in> set xs. f x = Inl e"
  by (induction xs) (auto split: sum.splits)

lemma pair_for_comparison_no_mismatch:
  "pair_for_comparison c v d \<noteq> Inl KeySetPairsMismatchQueryError"
  by (auto simp: pair_for_comparison_def comparable_value_def element_def is_ascending_def
      bind_err_def remove_order_direction_eq
      split: sum.splits option.splits if_splits)

lemma compare_sql_row_values_no_mismatch:
  "compare_sql_row_values d ls gs \<noteq> Inl KeySetPairsMismatchQueryError"
  by (simp add: compare_sql_row_values_def)

lemma has_pairs_not_empty:
  "keyset_pairs b = Some pairs \<Longrightarrow> b \<noteq> empty_bookmark"
  by (auto simp: empty_bookmark_def)


text \<open>
  Claim C1. For a paginator whose bookmark contains keyset pairs,
  \<^verbatim>\<open>get_modified_sql_statement\<close> raises \<^verbatim>\<open>KeySetPairsMismatchQueryError\<close> exactly when
  the names of the ordering columns differ from the keys of the pairs (other names,
  or another order). The exception is the whole result: it comes out of
  \<^verbatim>\<open>_apply_filter_condition_if_required\<close>, before any condition, ordering or limit is
  put on the statement.
\<close>

theorem keyset_pairs_mismatch_raises:
  assumes "keyset_pairs (bookmark p) = Some pairs"
  shows "(get_modified_sql_statement p = Inl KeySetPairsMismatchQueryError
            \<longleftrightarrow> map name (order_by_columns p) \<noteq> map fst pairs)
       \<and> (apply_filter_condition_if_required p = Inl KeySetPairsMismatchQueryError
            \<longleftrightarrow> map name (order_by_columns p) \<noteq> map fst pairs)"
proof -
  have ne: "bookmark p \<noteq> empty_bookmark"
    using assms by (rule has_pairs_not_empty)
  have 1: "apply_filter_condition_if_required p = Inl KeySetPairsMismatchQueryError"
    if "map name (order_by_columns p) \<noteq> map fst pairs"
    using that ne assms by (simp add: apply_filter_condition_if_required_def)
  have 2: "apply_filter_condition_if_required p \<noteq> Inl KeySetPairsMismatchQueryError"
    if eq: "map name (order_by_columns p) = map fst pairs"
  proof
    assume a: "apply_filter_condition_if_required p = Inl KeySetPairsMismatchQueryError"
    let ?m = "map_err (\<lambda>(c, v). pair_for_comparison c v (dialect p))
                (zip (order_by_columns p) (map snd pairs))"
    show False
    proof (cases ?m)
      case (Inl e)
      with a ne assms eq have "e = KeySetPairsMismatchQueryError"
        by (simp add: apply_filter_condition_if_required_def bind_err_def)
      with map_err_Inl [OF Inl]
      have "\<exists>x \<in> set (zip (order_by_columns p) (map snd pairs)).
              (\<lambda>(c, v). pair_for_comparison c v (dialect p)) x = Inl KeySetPairsMismatchQueryError"
        by simp
      then show False
        by (auto simp: pair_for_comparison_no_mismatch)
    next
      case (Inr swapped)
      with a ne assms eq show False
        using compare_sql_row_values_no_mismatch [of "dialect p" "map snd swapped" "map fst swapped"]
        by (auto simp: apply_filter_condition_if_required_def bind_err_def
            split: if_splits sum.splits option.splits)
    qed
  qed
  have 3: "get_modified_sql_statement p = Inl e \<longleftrightarrow> apply_filter_condition_if_required p = Inl e" for e
    by (auto simp: get_modified_sql_statement_def bind_err_def Let_def split: sum.splits)
  from 1 2 3 show ?thesis by blast
qed

theorem keyset_pairs_mismatch_raises_witness:
  "keyset_pairs (bookmark (authors_paginator 2 name_bookmark)) = Some [(''name'', Scalar 10)]
   \<and> map name (order_by_columns (authors_paginator 2 name_bookmark)) = [''id'']
   \<and> get_modified_sql_statement (authors_paginator 2 name_bookmark)
       = Inl KeySetPairsMismatchQueryError
   \<and> keyset_pairs (bookmark (authors_paginator 2 (id_bookmark 10 ''forward'')))
       = Some [(''id'', Scalar 10)]
   \<and> get_modified_sql_statement (authors_paginator 2 (id_bookmark 10 ''forward''))
       \<noteq> Inl KeySetPairsMismatchQueryError"
proof -
  have h1: "keyset_pairs (bookmark (authors_paginator 2 name_bookmark)) = Some [(''name'', Scalar 10)]"
    by (simp add: authors_paginator_def name_bookmark_def)
  have h2: "keyset_pairs (bookmark (authors_paginator 2 (id_bookmark 10 ''forward'')))
       = Some [(''id'', Scalar 10)]"
    by (simp add: authors_paginator_def)
  have n1: "map name (order_by_columns (authors_paginator 2 name_bookmark)) = [''id'']"
    by (simp add: authors_paginator_def)
  have n2: "map name (order_by_columns (authors_paginator 2 (id_bookmark 10 ''forward''))) = [''id'']"
    by (simp add: authors_paginator_def)
  from keyset_pairs_mismatch_raises [OF h1] keyset_pairs_mismatch_raises [OF h2] h1 h2 n1 n2
  show ?thesis
    by simp
qed


lemma map_err_map:
  "map_err f xs = Inr ys \<Longrightarrow> map Inr ys = map f xs"
  by (induction xs arbitrary: ys) (auto split: sum.splits)

lemma map_err_length:
  "map_err f xs = Inr ys \<Longrightarrow> length ys = length xs"
  by (induction xs arbitrary: ys) (auto split: sum.splits)

lemma KeySetPaginator_Inr:
  assumes "KeySetPaginator str_of find_order_key query_or_select psize d bm = Inr p"
  shows "\<exists>parsed cols clauses.
           parse_order_by_clause str_of query_or_select = Inr parsed
         \<and> (if is_backward (case bm of None \<Rightarrow> empty_bookmark | Some b \<Rightarrow> b)
             then map_err (reversed str_of) parsed else Inr parsed) = Inr cols
         \<and> scaffold_order_by_clauses find_order_key cols = Inr clauses
         \<and> p = \<lparr>page_size = psize, select_or_query = query_or_select,
                 bookmark = (case bm of None \<Rightarrow> empty_bookmark | Some b \<Rightarrow> b),
                 order_by_columns = cols, order_by_clauses = clauses, dialect = d\<rparr>"
  using assms
  by (auto simp: KeySetPaginator_def bind_err_def Let_def split: sum.splits)

text \<open>
  Claim C6. For a paginator built by \<^verbatim>\<open>KeySetPaginator\<close> from a statement, a page
  size, a dialect and an optional bookmark (forward or backward), whenever the filter
  step returns a statement, \<^verbatim>\<open>get_modified_sql_statement\<close> emits that statement with
  the row limit \<open>page_size + 1\<close> and with an ORDER BY that is exactly the resolved key
  sequence: one clause per ordering key, the clause \<^verbatim>\<open>find_order_key\<close> gives for that
  key, in the order of the keys, where the keys are the parsed ORDER BY clauses of the
  base statement (each reversed when the bookmark is backward). The ordering of the
  base statement is replaced, not extended: the emitted ORDER BY has as many clauses
  as the base statement's.
\<close>

theorem get_modified_sql_statement_limit_and_ordering:
  assumes "KeySetPaginator str_of find_order_key query_or_select psize d bm = Inr p"
    and "apply_filter_condition_if_required p = Inr filtered"
  shows "\<exists>parsed statement.
           parse_order_by_clause str_of query_or_select = Inr parsed
         \<and> (if is_backward (case bm of None \<Rightarrow> empty_bookmark | Some b \<Rightarrow> b)
             then map_err (reversed str_of) parsed = Inr (order_by_columns p)
             else order_by_columns p = parsed)
         \<and> get_modified_sql_statement p = Inr statement
         \<and> statement = filtered\<lparr>sel_order_by_clauses := order_by_clauses p,
                                  sel_limit_clause := Some (psize + 1)\<rparr>
         \<and> sel_limit_clause statement = Some (psize + 1)
         \<and> map Inr (sel_order_by_clauses statement)
             = map (\<lambda>c. order_by_clause (find_order_key c)) (order_by_columns p)
         \<and> length (sel_order_by_clauses statement) = length (sel_order_by_clauses query_or_select)"
proof -
  let ?b = "case bm of None \<Rightarrow> empty_bookmark | Some b \<Rightarrow> b"
  from KeySetPaginator_Inr [OF assms(1)] obtain parsed cols clauses where
    parsed: "parse_order_by_clause str_of query_or_select = Inr parsed"
    and cols: "(if is_backward ?b then map_err (reversed str_of) parsed else Inr parsed) = Inr cols"
    and clauses: "scaffold_order_by_clauses find_order_key cols = Inr clauses"
    and p: "p = \<lparr>page_size = psize, select_or_query = query_or_select, bookmark = ?b,
                 order_by_columns = cols, order_by_clauses = clauses, dialect = d\<rparr>"
    by blast
  let ?statement = "filtered\<lparr>sel_order_by_clauses := order_by_clauses p,
                             sel_limit_clause := Some (psize + 1)\<rparr>"
  have keys: "if is_backward ?b then map_err (reversed str_of) parsed = Inr (order_by_columns p)
              else order_by_columns p = parsed"
    using cols by (simp add: p split: if_splits)
  have emitted: "get_modified_sql_statement p = Inr ?statement"
    using assms(2)
    by (simp add: get_modified_sql_statement_def bind_err_def select_order_by_def
        select_limit_def p)
  have each: "map Inr (sel_order_by_clauses ?statement)
                = map (\<lambda>c. order_by_clause (find_order_key c)) (order_by_columns p)"
    using map_err_map [OF clauses [unfolded scaffold_order_by_clauses_def]] by (simp add: p)
  have "length clauses = length cols"
    using map_err_length [OF clauses [unfolded scaffold_order_by_clauses_def]] .
  moreover have "length cols = length parsed"
    using cols map_err_length [of "reversed str_of" parsed cols] by (auto split: if_splits)
  moreover have "length parsed = length (sel_order_by_clauses query_or_select)"
    using map_err_length [OF parsed [unfolded parse_order_by_clause_def]] .
  ultimately have len: "length (sel_order_by_clauses ?statement)
                          = length (sel_order_by_clauses query_or_select)"
    by (simp add: p)
  from parsed keys emitted each len show ?thesis
    by simp
qed

theorem get_modified_sql_statement_limit_and_ordering_witness:
  "KeySetPaginator column_text authors_order_key authors_query 2 None None
     = Inr (authors_paginator 2 empty_bookmark)
   \<and> get_modified_sql_statement (authors_paginator 2 empty_bookmark) =
     Inr (authors_statement [] (asc authors_id) 3)
   \<and> KeySetPaginator column_text authors_order_key authors_query 2 None
       (Some (id_bookmark 10 ''forward''))
     = Inr (authors_paginator 2 (id_bookmark 10 ''forward''))
   \<and> get_modified_sql_statement (authors_paginator 2 (id_bookmark 10 ''forward'')) =
     Inr (authors_statement [Lt (BindParameter (Scalar 10)) (Expression authors_id)]
            (asc authors_id) 3)
   \<and> KeySetPaginator column_text authors_order_key authors_query 2 None
       (Some (id_bookmark 10 ''backward''))
     = Inr (authors_paginator 2 (id_bookmark 10 ''backward''))
   \<and> get_modified_sql_statement (authors_paginator 2 (id_bookmark 10 ''backward'')) =
     Inr (authors_statement [Lt (Expression authors_id) (BindParameter (Scalar 10))]
            (desc authors_id) 3)"
proof -
  have k1: "KeySetPaginator column_text authors_order_key authors_query 2 None None
     = Inr (authors_paginator 2 empty_bookmark)"
    using KeySetPaginator_authors [of 2 None] by simp
  have k2: "KeySetPaginator column_text authors_order_key authors_query 2 None
       (Some (id_bookmark 10 ''forward''))
     = Inr (authors_paginator 2 (id_bookmark 10 ''forward''))"
    using KeySetPaginator_authors [of 2 "Some (id_bookmark 10 ''forward'')"] by simp
  have k3: "KeySetPaginator column_text authors_order_key authors_query 2 None
       (Some (id_bookmark 10 ''backward''))
     = Inr (authors_paginator 2 (id_bookmark 10 ''backward''))"
    using KeySetPaginator_authors [of 2 "Some (id_bookmark 10 ''backward'')"] by simp
  have s1: "get_modified_sql_statement (authors_paginator 2 empty_bookmark) =
     Inr (authors_statement [] (asc authors_id) 3)"
    using get_modified_sql_statement_limit_and_ordering [OF k1 filter_no_bookmark]
    by (auto simp: authors_paginator_def authors_statement_def authors_query_def is_backward_def
        empty_bookmark_def)
  have s2: "get_modified_sql_statement (authors_paginator 2 (id_bookmark 10 ''forward'')) =
     Inr (authors_statement [Lt (BindParameter (Scalar 10)) (Expression authors_id)]
            (asc authors_id) 3)"
    using get_modified_sql_statement_limit_and_ordering [OF k2 filter_forward]
    by (auto simp: authors_paginator_def authors_statement_def authors_query_def is_backward_def)
  have s3: "get_modified_sql_statement (authors_paginator 2 (id_bookmark 10 ''backward'')) =
     Inr (authors_statement [Lt (Expression authors_id) (BindParameter (Scalar 10))]
            (desc authors_id) 3)"
    using get_modified_sql_statement_limit_and_ordering [OF k3 filter_backward]
    by (auto simp: authors_paginator_def authors_statement_def authors_query_def is_backward_def)
  from k1 k2 k3 s1 s2 s3 show ?thesis
    by simp
qed

section \<open>Pages of the authors scenario\<close>

lemma execute_no_bookmark_3:
  "execute ''Author'' (authors_statement [] (asc authors_id) 3) authors_table =
     [[(''Author'', Instance [(''id'', 1)])], [(''Author'', Instance [(''id'', 2)])],
      [(''Author'', Instance [(''id'', 3)])]]"
  by (simp add: execute_def authors_statement_def authors_table_def sort_rows_def asc_def
      authors_id_def)

lemma execute_no_bookmark_6:
  "execute ''Author'' (authors_statement [] (asc authors_id) 6) authors_table =
     [[(''Author'', Instance [(''id'', 1)])], [(''Author'', Instance [(''id'', 2)])],
      [(''Author'', Instance [(''id'', 3)])], [(''Author'', Instance [(''id'', 4)])],
      [(''Author'', Instance [(''id'', 5)])]]"
  by (simp add: execute_def authors_statement_def authors_table_def sort_rows_def asc_def
      authors_id_def)

lemma execute_forward_3:
  "execute ''Author''
     (authors_statement [Lt (BindParameter (Scalar 3)) (Expression authors_id)] (asc authors_id) 3)
     authors_table =
     [[(''Author'', Instance [(''id'', 4)])], [(''Author'', Instance [(''id'', 5)])]]"
  by (simp add: execute_def authors_statement_def authors_table_def sort_rows_def asc_def
      authors_id_def)

lemma execute_backward_3:
  "execute ''Author''
     (authors_statement [Lt (Expression authors_id) (BindParameter (Scalar 3))] (desc authors_id) 3)
     authors_table =
     [[(''Author'', Instance [(''id'', 2)])], [(''Author'', Instance [(''id'', 1)])]]"
  by (simp add: execute_def authors_statement_def authors_table_def sort_rows_def desc_def
      authors_id_def)

lemma authors_paginator_sel:
  "page_size (authors_paginator psize b) = psize"
  "select_or_query (authors_paginator psize b) = authors_query"
  "bookmark (authors_paginator psize b) = b"
  "order_by_columns (authors_paginator psize b) =
     [authors_key (if is_backward b then desc authors_id else asc authors_id)]"
  "order_by_clauses (authors_paginator psize b) =
     [if is_backward b then desc authors_id else asc authors_id]"
  "dialect (authors_paginator psize b) = None"
  by (simp_all add: authors_paginator_def)

lemma is_backward_simps:
  "\<not> is_backward (empty_bookmark :: 'v bookmark)"
  "is_backward (id_bookmark i ''backward'')"
  "\<not> is_backward (id_bookmark i ''forward'')"
  by (simp_all add: is_backward_def empty_bookmark_def)

lemma statement_forward:
  "get_modified_sql_statement (authors_paginator psize (id_bookmark i ''forward'')) =
     Inr (authors_statement [Lt (BindParameter (Scalar i)) (Expression authors_id)]
            (asc authors_id) (psize + 1))"
  by (simp add: get_modified_sql_statement_def filter_forward bind_err_def select_order_by_def
      select_limit_def authors_paginator_sel is_backward_simps authors_statement_def
      authors_query_def)

lemma statement_backward:
  "get_modified_sql_statement (authors_paginator psize (id_bookmark i ''backward'')) =
     Inr (authors_statement [Lt (Expression authors_id) (BindParameter (Scalar i))]
            (desc authors_id) (psize + 1))"
  by (simp add: get_modified_sql_statement_def filter_backward bind_err_def select_order_by_def
      select_limit_def authors_paginator_sel is_backward_simps authors_statement_def
      authors_query_def)

lemma keyset_pairs_author:
  "row_keyset_pairs [authors_key c] (author i) = Inr [(''id'', Scalar i)]"
  by (simp add: row_keyset_pairs_def author_def bind_err_def dict_of_def)

lemma fetch_authors_eq:
  "fetch_authors psize bm =
     bind_err (get_modified_sql_statement
                 (authors_paginator psize (case bm of None \<Rightarrow> empty_bookmark | Some b \<Rightarrow> b)))
       (\<lambda>statement.
          parse_result (authors_paginator psize (case bm of None \<Rightarrow> empty_bookmark | Some b \<Rightarrow> b))
            (execute ''Author'' statement authors_table))"
  by (simp add: fetch_authors_def fetch_page_def KeySetPaginator_authors bind_err_def)

lemma unpack_authors:
  "unpack_rows_if_row_contains_only_orm_model (map (\<lambda>i. [(''Author'', Instance [(''id'', i)])]) ids)
     = map author ids"
  by (simp add: unpack_rows_if_row_contains_only_orm_model_def author_def)

lemma table_authors:
  "map_err (\<lambda>(idx, r). bind_err (row_keyset_pairs [authors_key c] r) (\<lambda>d. Inr (int idx, d)))
     (enumerate n (map author ids))
   = Inr (map (\<lambda>(idx, i). (int idx, [(''id'', Scalar i)])) (enumerate n ids))"
  by (induction ids arbitrary: n) (simp_all add: keyset_pairs_author bind_err_def)

lemma parse_result_authors:
  "parse_result (authors_paginator psize b) (map (\<lambda>i. [(''Author'', Instance [(''id'', i)])]) ids) =
     KeySetPage (map author ids)
       \<lparr>meta_page_size = psize,
        meta_order_by_columns = [authors_key (if is_backward b then desc authors_id else asc authors_id)],
        meta_bookmark = b\<rparr>"
  by (simp add: parse_result_def unpack_authors authors_paginator_sel)

lemma KeySetPage_authors:
  assumes "meta_order_by_columns m = [authors_key c]"
  shows "KeySetPage (map author ids) m =
     (let cut = slice_to (map author ids) (meta_page_size m);
          table0 = map (\<lambda>(idx, i). (int idx, [(''id'', Scalar i)])) (enumerate 0 ids);
          prev = meta_bookmark m;
          table = (if is_backward prev then rev table0 else table0);
          shown = (if is_backward prev then rev cut else cut);
          first = map_of table 0;
          last = map_of table (int (length shown) - 1);
          additional = map_of table (int (length shown))
      in Inr \<lparr>rows = shown, metadata = m, keyset_pairs_table = table,
              previous_bookmark = prev,
              first_keyset_pair = first, last_keyset_pair = last,
              additional_keyset_pair = additional,
              next_keyset_pair = dict_or additional last,
              previous_keyset_pair = keyset_pairs prev\<rparr>)"
  unfolding KeySetPage_def assms table_authors
  by (simp add: bind_err_def Let_def)

lemma fetch_authors_page:
  assumes "get_modified_sql_statement
             (authors_paginator psize (case bm of None \<Rightarrow> empty_bookmark | Some b \<Rightarrow> b)) = Inr st"
    and "execute ''Author'' st authors_table = map (\<lambda>i. [(''Author'', Instance [(''id'', i)])]) ids"
  shows "fetch_authors psize bm =
     KeySetPage (map author ids)
       (authors_metadata psize (case bm of None \<Rightarrow> empty_bookmark | Some b \<Rightarrow> b))"
  unfolding fetch_authors_eq assms(1) bind_err_def sum.case assms(2) parse_result_authors
    authors_metadata_def
  by simp

lemma page_1:
  "fetch_authors 2 None = KeySetPage (map author [1, 2, 3]) (authors_metadata 2 empty_bookmark)"
  using fetch_authors_page [of 2 None "authors_statement [] (asc authors_id) 3" "[1, 2, 3]"]
  by (simp add: statement_no_bookmark [of 2, simplified] execute_no_bookmark_3)

lemma page_2:
  "fetch_authors 2 (Some (id_bookmark 3 ''forward'')) =
     KeySetPage (map author [4, 5]) (authors_metadata 2 (id_bookmark 3 ''forward''))"
  using fetch_authors_page [of 2 "Some (id_bookmark 3 ''forward'')"
      "authors_statement [Lt (BindParameter (Scalar 3)) (Expression authors_id)] (asc authors_id) 3"
      "[4, 5]"]
  by (simp add: statement_forward [of 2 3, simplified] execute_forward_3)

lemma page_back:
  "fetch_authors 2 (Some (id_bookmark 3 ''backward'')) =
     KeySetPage (map author [2, 1]) (authors_metadata 2 (id_bookmark 3 ''backward''))"
  using fetch_authors_page [of 2 "Some (id_bookmark 3 ''backward'')"
      "authors_statement [Lt (Expression authors_id) (BindParameter (Scalar 3))] (desc authors_id) 3"
      "[2, 1]"]
  by (simp add: statement_backward [of 2 3, simplified] execute_backward_3)

lemma page_all_5:
  "fetch_authors 5 None =
     KeySetPage (map author [1, 2, 3, 4, 5]) (authors_metadata 5 empty_bookmark)"
  using fetch_authors_page [of 5 None "authors_statement [] (asc authors_id) 6" "[1, 2, 3, 4, 5]"]
  by (simp add: statement_no_bookmark [of 5, simplified] execute_no_bookmark_6)

lemma meta_authors [simp]:
  "meta_page_size (authors_metadata psize b) = psize"
  "meta_bookmark (authors_metadata psize b) = b"
  by (simp_all add: authors_metadata_def)

lemma KeySetPage_authors_metadata:
  "KeySetPage (map author ids) (authors_metadata psize b) =
     (let cut = slice_to (map author ids) psize;
          table0 = map (\<lambda>(idx, i). (int idx, [(''id'', Scalar i)])) (enumerate 0 ids);
          table = (if is_backward b then rev table0 else table0);
          shown = (if is_backward b then rev cut else cut);
          first = map_of table 0;
          last = map_of table (int (length shown) - 1);
          additional = map_of table (int (length shown))
      in Inr \<lparr>rows = shown, metadata = authors_metadata psize b, keyset_pairs_table = table,
              previous_bookmark = b,
              first_keyset_pair = first, last_keyset_pair = last,
              additional_keyset_pair = additional,
              next_keyset_pair = dict_or additional last,
              previous_keyset_pair = keyset_pairs b\<rparr>)"
  by (subst KeySetPage_authors
        [where c = "if is_backward b then desc authors_id else asc authors_id"])
    (simp_all add: authors_metadata_def Let_def)

text \<open>
  Claim C2. For the store with ids 1 to 5, ordered ascending by id, and page size 2,
  the fetch without bookmark yields rows [1, 2], but its next bookmark is the
  lookahead row's key, id = 3, not the last shown row's key, id = 2. The filter is
  strict, so the fetch with that next bookmark yields rows [4, 5]: row 3 is on no
  page. Its previous bookmark is (id = 3, backward), and the fetch with it (ordering
  reversed, condition id < 3, rows reversed back) yields rows [1, 2].
\<close>

theorem round_trip_skips_row:
  "map_sum id (\<lambda>pg. (rows pg, KeySetPage_next pg)) (fetch_authors 2 None)
     = Inr ([author 1, author 2], id_bookmark 3 ''forward'')
   \<and> map_sum id (\<lambda>pg. (rows pg, KeySetPage_previous pg))
         (fetch_authors 2 (Some (id_bookmark 3 ''forward'')))
     = Inr ([author 4, author 5], id_bookmark 3 ''backward'')
   \<and> map_sum id rows (fetch_authors 2 (Some (id_bookmark 3 ''backward'')))
     = Inr [author 1, author 2]"
proof -
  have 1: "map_sum id (\<lambda>pg. (rows pg, KeySetPage_next pg)) (fetch_authors 2 None)
     = Inr ([author 1, author 2], id_bookmark 3 ''forward'')"
    unfolding page_1 KeySetPage_authors_metadata
    by (simp add: slice_to_def is_backward_def empty_bookmark_def Let_def dict_or_def
        KeySetPage_has_next_def KeySetPage_next_def id_bookmark_def)
  have 2: "map_sum id (\<lambda>pg. (rows pg, KeySetPage_previous pg))
         (fetch_authors 2 (Some (id_bookmark 3 ''forward'')))
     = Inr ([author 4, author 5], id_bookmark 3 ''backward'')"
    unfolding page_2 KeySetPage_authors_metadata
    by (simp add: slice_to_def is_backward_def Let_def
        KeySetPage_previous_def KeySetPage_has_previous_def)
      (simp add: id_bookmark_def)
  have 3: "map_sum id rows (fetch_authors 2 (Some (id_bookmark 3 ''backward'')))
     = Inr [author 1, author 2]"
    unfolding page_back KeySetPage_authors_metadata
    by (simp add: slice_to_def is_backward_def Let_def)
  from 1 2 3 show ?thesis by simp
qed

text \<open>
  Claim C4. With 5 rows and page size 5 the page shows all 5 rows and the lookahead
  key is absent, but \<^verbatim>\<open>has_next\<close> is true: it tests \<^verbatim>\<open>_next_keyset_pair\<close>, which
  falls back to the last shown row's key, and \<^verbatim>\<open>next\<close> is then a forward bookmark at
  id = 5.
\<close>

theorem has_next_on_last_page:
  "map_sum id (\<lambda>pg. (rows pg, additional_keyset_pair pg, KeySetPage_has_next pg, KeySetPage_next pg))
     (fetch_authors 5 None)
   = Inr ([author 1, author 2, author 3, author 4, author 5], None, True, id_bookmark 5 ''forward'')"
  unfolding page_all_5 KeySetPage_authors_metadata
    by (simp add: slice_to_def is_backward_def
      empty_bookmark_def Let_def dict_or_def KeySetPage_has_next_def KeySetPage_next_def
      id_bookmark_def)


section \<open>Properties of every keyset page\<close>

lemma KeySetPage_rows:
  assumes "KeySetPage fetched m = Inr pg"
  shows "rows pg =
           (if is_backward (meta_bookmark m) then rev (slice_to fetched (meta_page_size m))
            else slice_to fetched (meta_page_size m))"
  using assms
  by (auto simp: KeySetPage_def bind_err_def Let_def split: sum.splits)

lemma getitem_in_set: "getitem xs i = Inr x \<Longrightarrow> x \<in> set xs"
  by (auto simp: getitem_def Let_def split: if_splits)


text \<open>
  Claim C5. For a page size that is not negative, every list of fetched rows and
  either direction, a constructed \<^verbatim>\<open>KeySetPage\<close> exposes at most \<open>page_size\<close> rows: its
  length is at most the page size, iterating gives the first \<open>page_size\<close> fetched rows
  (reversed for a backward bookmark), and indexing returns only rows among them.
\<close>

theorem KeySetPage_at_most_page_size:
  assumes "0 \<le> meta_page_size m"
    and "KeySetPage fetched m = Inr pg"
  shows "page_len pg \<le> meta_page_size m
       \<and> page_iter pg =
           (if is_backward (meta_bookmark m) then rev (take (nat (meta_page_size m)) fetched)
            else take (nat (meta_page_size m)) fetched)
       \<and> (\<forall>i r. page_getitem pg i = Inr r \<longrightarrow> r \<in> set (take (nat (meta_page_size m)) fetched))"
proof -
  have r: "rows pg =
           (if is_backward (meta_bookmark m) then rev (take (nat (meta_page_size m)) fetched)
            else take (nat (meta_page_size m)) fetched)"
    using KeySetPage_rows [OF assms(2)] assms(1) by (simp add: slice_to_def)
  have "page_len pg \<le> meta_page_size m"
    using assms(1) by (simp add: page_len_def r)
  moreover have "\<forall>i r. page_getitem pg i = Inr r \<longrightarrow> r \<in> set (take (nat (meta_page_size m)) fetched)"
  proof (intro allI impI)
    fix i x assume "page_getitem pg i = Inr x"
    then have "x \<in> set (rows pg)"
      unfolding page_getitem_def by (rule getitem_in_set)
    then show "x \<in> set (take (nat (meta_page_size m)) fetched)"
      by (simp add: r split: if_splits)
  qed
  ultimately show ?thesis
    by (simp add: page_iter_def r)
qed

theorem KeySetPage_at_most_page_size_witness:
  "0 \<le> meta_page_size (authors_metadata 2 (id_bookmark 4 ''backward''))
   \<and> (\<exists>pg. KeySetPage (map author [3, 2, 1]) (authors_metadata 2 (id_bookmark 4 ''backward''))
               = Inr pg
          \<and> page_len pg \<le> 2
          \<and> page_iter pg = [author 2, author 3]
          \<and> page_getitem pg 1 = Inr (author 3)
          \<and> page_getitem pg 2 = Inl IndexError)"
proof -
  have h1: "0 \<le> meta_page_size (authors_metadata 2 (id_bookmark 4 ''backward''))"
    by simp
  have "\<exists>pg. KeySetPage (map author [3, 2, 1]) (authors_metadata 2 (id_bookmark 4 ''backward''))
               = Inr pg"
    unfolding KeySetPage_authors_metadata by (simp add: Let_def)
  then obtain pg where
    h2: "KeySetPage (map author [3, 2, 1]) (authors_metadata 2 (id_bookmark 4 ''backward'')) = Inr pg"
    by blast
  from KeySetPage_at_most_page_size [OF h1 h2]
  have len: "page_len pg \<le> 2" and it: "page_iter pg = [author 2, author 3]"
    by (simp_all add: is_backward_def)
  from it have "page_getitem pg 1 = Inr (author 3)" and "page_getitem pg 2 = Inl IndexError"
    by (simp_all add: page_getitem_def page_iter_def getitem_def)
  with h1 h2 len it show ?thesis
    by blast
qed


text \<open>
  Claim C8. On every \<^verbatim>\<open>KeySetPage\<close>, \<^verbatim>\<open>total_pages_count\<close> and \<^verbatim>\<open>current_page_number\<close>
  raise \<^verbatim>\<open>TypeError\<close>; neither ever returns a number.
\<close>

theorem KeySetPage_counts_not_supported:
  "KeySetPage_total_pages_count pg = Inl TypeError
   \<and> KeySetPage_current_page_number pg = Inl TypeError
   \<and> (\<forall>n. KeySetPage_total_pages_count pg \<noteq> Inr n)
   \<and> (\<forall>n. KeySetPage_current_page_number pg \<noteq> Inr n)"
  by (simp add: KeySetPage_total_pages_count_def KeySetPage_current_page_number_def)


section \<open>The limit-offset page\<close>

text \<open>
  Claim C10. For every row list, page size, offset and row count (in particular for
  a positive page size and an offset that is not negative), \<^verbatim>\<open>has_previous\<close> of a
  \<^verbatim>\<open>LimitOffsetPage\<close> is false, and so \<^verbatim>\<open>previous\<close> is the empty bookmark.
\<close>

theorem LimitOffsetPage_never_has_previous:
  "\<not> LimitOffsetPage_has_previous (LimitOffsetPage rs psize off rows_count)
   \<and> LimitOffsetPage_previous (LimitOffsetPage rs psize off rows_count) = empty_bookmark"
  by (simp add: LimitOffsetPage_has_previous_def LimitOffsetPage_previous_def LimitOffsetPage_def)


end
